theory Spec2Isabelle
  imports Complex_Main "HOL-Library.List_Lexorder" "HOL-Library.AList"
begin

section \<open>Python values used by \<open>ml/targets/create-targets.py\<close>\<close>

text \<open>
  A Python \<open>str\<close> is a sequence of Unicode code points, so it is modelled as a list of
  natural numbers. String literals of the source are written with \<open>py\<close>, which maps an
  ASCII literal to its code points. A \<open>pd.Timestamp\<close> is compared through its integer
  value, so a timestamp is an \<open>int\<close>.
\<close>

type_synonym cp = nat
type_synonym pystr = "cp list"
type_synonym timestamp = int

definition py :: "string \<Rightarrow> pystr" where
  "py s = map of_char s"

section \<open>The head-to-head aggregator\<close>

subsection \<open>\<open>bisect.bisect_left\<close>\<close>

text \<open>
  The standard library's loop:
  \<^verbatim>\<open>
  while lo < hi:
      mid = (lo + hi) // 2
      if a[mid] < x: lo = mid + 1
      else: hi = mid
  return lo
  \<close>
  started with \<open>lo = 0\<close> and \<open>hi = len(a)\<close>.
\<close>

function bisect_loop :: "timestamp list \<Rightarrow> timestamp \<Rightarrow> nat \<Rightarrow> nat \<Rightarrow> nat" where
  "bisect_loop a x lo hi =
     (if lo < hi then
        (let mid = (lo + hi) div 2 in
         if a ! mid < x then bisect_loop a x (mid + 1) hi
         else bisect_loop a x lo mid)
      else lo)"
  by pat_completeness auto
termination
  by (relation "measure (\<lambda>(a, x, lo, hi). hi - lo)") auto

definition bisect_left :: "timestamp list \<Rightarrow> timestamp \<Rightarrow> nat" where
  "bisect_left a x = bisect_loop a x 0 (length a)"

subsection \<open>\<open>H2HMatch\<close> and the snapshot\<close>

record H2HMatch =
  date :: timestamp
  home_team :: pystr
  away_team :: pystr
  home_goals :: int
  away_goals :: int

text \<open>
  The dictionary returned by \<open>compute_h2h_stats\<close> always has the same seven keys, so it
  is a record. \<open>None\<close> is \<open>None\<close>; the quotients are Python floats, modelled by the
  exact rationals they approximate.
\<close>

record snapshot =
  matches :: nat
  home_win_pct :: "rat option"
  away_win_pct :: "rat option"
  draw_pct :: "rat option"
  avg_goals :: "rat option"
  btts_pct :: "rat option"
  over_2_5_pct :: "rat option"

definition empty_snapshot :: snapshot where
  "empty_snapshot =
     \<lparr>matches = 0, home_win_pct = None, away_win_pct = None, draw_pct = None,
      avg_goals = None, btts_pct = None, over_2_5_pct = None\<rparr>"

subsection \<open>Selecting the matches\<close>

text \<open>
  The slice \<open>xs[-k:]\<close>. Python reads the start index \<open>-k\<close> from the end when it is
  negative (clamped at 0) and from the front otherwise (clamped at the length): for
  \<open>k = 0\<close> the slice is the whole list, and for \<open>k < 0\<close> it drops the first \<open>-k\<close>
  elements.
\<close>

definition slice_last :: "'a list \<Rightarrow> int \<Rightarrow> 'a list" where
  "slice_last xs k =
     (let n = int (length xs); start = - k;
          start' = (if start < 0 then max (start + n) 0 else min start n)
      in drop (nat start') xs)"

text \<open>
  The venue loop \<open>for idx in range(cutoff - 1, -1, -1)\<close> with its \<open>break\<close>. The
  argument \<open>Suc idx\<close> says that \<open>idx\<close> is the next index visited; the loop is entered
  with \<open>cutoff\<close> and the empty selection.
\<close>

fun venue_scan :: "H2HMatch list \<Rightarrow> pystr \<Rightarrow> pystr \<Rightarrow> int \<Rightarrow> nat \<Rightarrow> H2HMatch list
    \<Rightarrow> H2HMatch list" where
  "venue_scan ms current_home current_away max_matches 0 selected = selected"
| "venue_scan ms current_home current_away max_matches (Suc idx) selected =
     (let match = ms ! idx in
      if home_team match = current_home \<and> away_team match = current_away then
        (let selected' = selected @ [match] in
         if int (length selected') \<ge> max_matches then selected'
         else venue_scan ms current_home current_away max_matches idx selected')
      else venue_scan ms current_home current_away max_matches idx selected)"

definition select_matches :: "H2HMatch list \<Rightarrow> pystr \<Rightarrow> pystr \<Rightarrow> nat \<Rightarrow> int \<Rightarrow> bool
    \<Rightarrow> H2HMatch list" where
  "select_matches ms current_home current_away cutoff max_matches venue_only =
     (if venue_only then rev (venue_scan ms current_home current_away max_matches cutoff [])
      else slice_last (take cutoff ms) max_matches)"

subsection \<open>Aggregating the selected matches\<close>

record tally =
  home_wins :: nat
  away_wins :: nat
  draws :: nat
  total_goals :: int
  btts :: nat
  over_2_5 :: nat

definition tally0 :: tally where
  "tally0 = \<lparr>home_wins = 0, away_wins = 0, draws = 0, total_goals = 0, btts = 0, over_2_5 = 0\<rparr>"

text \<open>One iteration of \<open>for match in selected\<close>, with the reorientation of the goals.\<close>

definition tally_step :: "pystr \<Rightarrow> tally \<Rightarrow> H2HMatch \<Rightarrow> tally" where
  "tally_step current_home t match =
     (let hg = (if home_team match = current_home then home_goals match else away_goals match);
          ag = (if home_team match = current_home then away_goals match else home_goals match);
          t1 = (if hg > ag then t\<lparr>home_wins := home_wins t + 1\<rparr>
                else if ag > hg then t\<lparr>away_wins := away_wins t + 1\<rparr>
                else t\<lparr>draws := draws t + 1\<rparr>);
          total = hg + ag;
          t2 = t1\<lparr>total_goals := total_goals t1 + total\<rparr>;
          t3 = (if hg > 0 \<and> ag > 0 then t2\<lparr>btts := btts t2 + 1\<rparr> else t2)
      in if (of_int total :: rat) > 5 / 2 then t3\<lparr>over_2_5 := over_2_5 t3 + 1\<rparr> else t3)"

definition tally_all :: "pystr \<Rightarrow> H2HMatch list \<Rightarrow> tally" where
  "tally_all current_home selected = foldl (tally_step current_home) tally0 selected"

definition snapshot_of :: "pystr \<Rightarrow> H2HMatch list \<Rightarrow> snapshot" where
  "snapshot_of current_home selected =
     (let t = tally_all current_home selected; count = length selected in
      \<lparr>matches = count,
       home_win_pct = Some ((of_nat (home_wins t) / of_nat count) * 100),
       away_win_pct = Some ((of_nat (away_wins t) / of_nat count) * 100),
       draw_pct = Some ((of_nat (draws t) / of_nat count) * 100),
       avg_goals = Some (of_int (total_goals t) / of_nat count),
       btts_pct = Some ((of_nat (btts t) / of_nat count) * 100),
       over_2_5_pct = Some ((of_nat (over_2_5 t) / of_nat count) * 100)\<rparr>)"

subsection \<open>\<open>compute_h2h_stats\<close>\<close>

definition compute_h2h_stats :: "H2HMatch list \<Rightarrow> pystr \<Rightarrow> pystr \<Rightarrow> timestamp \<Rightarrow> int \<Rightarrow> bool
    \<Rightarrow> snapshot" where
  "compute_h2h_stats ms current_home current_away current_date max_matches venue_only =
     (if ms = [] then empty_snapshot
      else
        (let dates = map date ms; cutoff = bisect_left dates current_date in
         if cutoff \<le> 0 then empty_snapshot
         else
           (let selected =
                  select_matches ms current_home current_away cutoff max_matches venue_only
            in if selected = [] then empty_snapshot
               else snapshot_of current_home selected)))"

text \<open>
  The value of the local variable \<open>selected\<close> when the statistics are computed; no
  match is selected on the two early returns.
\<close>

definition h2h_selected :: "H2HMatch list \<Rightarrow> pystr \<Rightarrow> pystr \<Rightarrow> timestamp \<Rightarrow> int \<Rightarrow> bool
    \<Rightarrow> H2HMatch list" where
  "h2h_selected ms current_home current_away current_date max_matches venue_only =
     (if ms = [] then []
      else
        (let cutoff = bisect_left (map date ms) current_date in
         if cutoff \<le> 0 then []
         else select_matches ms current_home current_away cutoff max_matches venue_only))"

section \<open>Strings\<close>

subsection \<open>The Unicode database\<close>

text \<open>
  \<open>str.lower\<close>, \<open>str.isalnum\<close> and \<open>str.isspace\<close> read the interpreter's Unicode
  tables, which are not part of the repository: they are a parameter. \<open>str_lower\<close> is
  the whole method on a string (it is not a map over the characters: one upper-case letter
  may lower to several code points, and capital sigma lowers by context); \<open>isalnum\<close> and
  \<open>isspace\<close> are the methods on a string of one character. \<open>strip\<close> and \<open>split\<close>
  use the same whitespace test as \<open>isspace\<close>.
\<close>

record ucd =
  str_lower :: "pystr \<Rightarrow> pystr"
  isalnum :: "cp \<Rightarrow> bool"
  isspace :: "cp \<Rightarrow> bool"

subsection \<open>\<open>strip\<close>, \<open>split\<close>, \<open>join\<close> and \<open>replace\<close>\<close>

definition py_strip :: "ucd \<Rightarrow> pystr \<Rightarrow> pystr" where
  "py_strip U s = rev (dropWhile (isspace U) (rev (dropWhile (isspace U) s)))"

text \<open>
  \<open>s.split()\<close> cuts at every run of whitespace and returns no empty word. The last
  argument of \<open>split_ws\<close> is the word read so far.
\<close>

fun split_ws :: "(cp \<Rightarrow> bool) \<Rightarrow> pystr \<Rightarrow> pystr \<Rightarrow> pystr list" where
  "split_ws sp [] w = (if w = [] then [] else [w])"
| "split_ws sp (c # cs) w =
     (if sp c then (if w = [] then split_ws sp cs [] else w # split_ws sp cs [])
      else split_ws sp cs (w @ [c]))"

definition py_split :: "ucd \<Rightarrow> pystr \<Rightarrow> pystr list" where
  "py_split U s = split_ws (isspace U) s []"

fun py_join :: "pystr \<Rightarrow> pystr list \<Rightarrow> pystr" where
  "py_join sep [] = []"
| "py_join sep [p] = p"
| "py_join sep (p # q # ps) = p @ sep @ py_join sep (q # ps)"

text \<open>\<open>value.replace(src, dst)\<close> for strings \<open>src\<close> and \<open>dst\<close> of one character each.\<close>

definition replace1 :: "cp \<Rightarrow> cp \<Rightarrow> pystr \<Rightarrow> pystr" where
  "replace1 src dst v = map (\<lambda>c. if c = src then dst else c) v"

subsection \<open>The tables\<close>

text \<open>
  \<open>REPLACEMENTS\<close> in the order of the dictionary: the code points of
  \<open>a\<close> with acute, grave, circumflex, tilde and diaeresis, then \<open>e\<close>, \<open>i\<close>, \<open>o\<close>
  and \<open>u\<close> with theirs, c cedilla and n tilde, each with the code point of its base letter
  (\<open>a\<close> is 97, \<open>c\<close> 99, \<open>e\<close> 101, \<open>i\<close> 105, \<open>n\<close> 110, \<open>o\<close> 111, \<open>u\<close> 117).
\<close>

definition REPLACEMENTS :: "(cp \<times> cp) list" where
  "REPLACEMENTS =
     [(225, 97), (224, 97), (226, 97), (227, 97), (228, 97),
      (233, 101), (232, 101), (234, 101), (235, 101),
      (237, 105), (236, 105), (238, 105), (239, 105),
      (243, 111), (242, 111), (244, 111), (245, 111), (246, 111),
      (250, 117), (249, 117), (251, 117), (252, 117),
      (231, 99), (241, 110)]"

definition STOP_WORDS :: "pystr list" where
  "STOP_WORDS =
     [py ''fc'', py ''cf'', py ''sc'', py ''afc'', py ''ac'', py ''ss'', py ''cd'', py ''ud'',
      py ''de'', py ''al'', py ''the'']"

text \<open>One key is \<open>primera division\<close> written with \<open>o\<close> acute, code point 243.\<close>

definition LEAGUE_NAME_MAP :: "(pystr \<times> int) list" where
  "LEAGUE_NAME_MAP =
     [(py ''premier league'', 39), (py ''english premier league'', 39), (py ''epl'', 39),
      (py ''e0'', 39),
      (py ''la liga'', 140), (py ''spanish la liga'', 140), (py ''primera division'', 140),
      (py ''primera divisi'' @ [243] @ py ''n'', 140), (py ''sp1'', 140),
      (py ''serie a'', 135), (py ''italian serie a'', 135), (py ''i1'', 135),
      (py ''bundesliga'', 78), (py ''german bundesliga'', 78), (py ''d1'', 78),
      (py ''ligue 1'', 61), (py ''french ligue 1'', 61), (py ''f1'', 61),
      (py ''primeira liga'', 94), (py ''liga portugal'', 94), (py ''portuguese league'', 94),
      (py ''p1'', 94),
      (py ''eredivisie'', 88), (py ''dutch eredivisie'', 88), (py ''n1'', 88)]"

subsection \<open>\<open>normalize_team_name\<close> and \<open>resolve_league_id\<close>\<close>

definition replace_all :: "pystr \<Rightarrow> pystr" where
  "replace_all v = foldl (\<lambda>v (src, dst). replace1 src dst v) v REPLACEMENTS"

definition blank_other :: "ucd \<Rightarrow> pystr \<Rightarrow> pystr" where
  "blank_other U v = map (\<lambda>ch. if isalnum U ch \<or> isspace U ch then ch else 32) v"

definition normalize_team_name :: "ucd \<Rightarrow> pystr \<Rightarrow> pystr" where
  "normalize_team_name U raw =
     (let v = str_lower U (py_strip U raw);
          v = replace_all v;
          v = blank_other U v;
          parts = filter (\<lambda>part. part \<noteq> [] \<and> part \<notin> set STOP_WORDS) (py_split U v)
      in py_strip U (py_join [32] parts))"

definition resolve_league_id :: "ucd \<Rightarrow> pystr \<Rightarrow> int option" where
  "resolve_league_id U raw = map_of LEAGUE_NAME_MAP (str_lower U (py_strip U raw))"

definition build_pair_key :: "pystr \<Rightarrow> pystr \<Rightarrow> pystr" where
  "build_pair_key home away =
     py_join (py ''__'') (if away < home then [away, home] else [home, away])"

subsection \<open>The laws of the Unicode database that the canonicalizer relies on\<close>

text \<open>
  The space (code point 32) is whitespace; and lowering is stable: a string built from the
  characters of some lowered string, the space and the base letters of \<open>REPLACEMENTS\<close>
  is left unchanged by \<open>str.lower\<close>.
\<close>

definition ucd_ok :: "ucd \<Rightarrow> bool" where
  "ucd_ok U \<longleftrightarrow>
     isspace U 32 \<and>
     (\<forall>s t. set t \<subseteq> set (str_lower U s) \<union> {32} \<union> snd ` set REPLACEMENTS
        \<longrightarrow> str_lower U t = t)"

subsection \<open>The database on Latin-1\<close>

text \<open>
  What the three methods do on the code points below 256, where every character of
  \<open>REPLACEMENTS\<close> lies: the upper-case letters are 65 to 90, 192 to 214 and 216 to 222,
  and each lowers to the code point 32 above it; whitespace is 9 to 13, 28 to 32, 133 and
  160; the alphanumeric characters are the digits, the letters, the ordinal indicators
  (170, 186), the micro sign (181), the superscript digits (178, 179, 185) and the
  fractions (188 to 190). Above 255 this database has no letters and no whitespace.
\<close>

definition lower1 :: "cp \<Rightarrow> cp" where
  "lower1 c =
     (if (65 \<le> c \<and> c \<le> 90) \<or> (192 \<le> c \<and> c \<le> 214) \<or> (216 \<le> c \<and> c \<le> 222)
      then c + 32 else c)"

definition isalnum1 :: "cp \<Rightarrow> bool" where
  "isalnum1 c \<longleftrightarrow>
     (48 \<le> c \<and> c \<le> 57) \<or> (65 \<le> c \<and> c \<le> 90) \<or> (97 \<le> c \<and> c \<le> 122) \<or> c = 170
     \<or> c = 178 \<or> c = 179 \<or> c = 181 \<or> c = 185 \<or> c = 186 \<or> (188 \<le> c \<and> c \<le> 190)
     \<or> (192 \<le> c \<and> c \<le> 214) \<or> (216 \<le> c \<and> c \<le> 246) \<or> (248 \<le> c \<and> c \<le> 255)"

definition isspace1 :: "cp \<Rightarrow> bool" where
  "isspace1 c \<longleftrightarrow> (9 \<le> c \<and> c \<le> 13) \<or> (28 \<le> c \<and> c \<le> 32) \<or> c = 133 \<or> c = 160"

definition latin1 :: ucd where
  "latin1 = \<lparr>str_lower = map lower1, isalnum = isalnum1, isspace = isspace1\<rparr>"

text \<open>
  The letter that is left of a character once its case and its accent are folded, as
  \<open>lower\<close> and the replacement loop fold them.
\<close>

definition fold_accent :: "cp \<Rightarrow> cp" where
  "fold_accent c = foldl (\<lambda>c (src, dst). if c = src then dst else c) c REPLACEMENTS"

definition fold_letter :: "cp \<Rightarrow> cp" where
  "fold_letter c = fold_accent (lower1 c)"

section \<open>The pipeline\<close>

subsection \<open>Tables\<close>

text \<open>
  A cell of a data frame is a number, a string, a calendar date or the missing value
  (\<open>NaN\<close>, which also stands for \<open>None\<close> and \<open>NaT\<close>). A row is the list of its columns
  with their cells; assigning to a column replaces its cell or appends the column, as
  \<open>merged[col] = ...\<close> does.
\<close>

datatype cell = Num rat | Str pystr | Day int | NaN

type_synonym row = "(string \<times> cell) list"

definition assign :: "string \<Rightarrow> cell \<Rightarrow> row \<Rightarrow> row" where
  "assign col v r = AList.update col v r"

definition assign_all :: "row \<Rightarrow> (string \<times> cell) list \<Rightarrow> row" where
  "assign_all r kvs = foldl (\<lambda>r (col, v). assign col v r) r kvs"

definition cell_of :: "row \<Rightarrow> string \<Rightarrow> cell option" where
  "cell_of r col = map_of r col"

definition notna :: "cell option \<Rightarrow> bool" where
  "notna c = (case c of Some NaN \<Rightarrow> False | Some _ \<Rightarrow> True | None \<Rightarrow> False)"

text \<open>
  A row of the raw match table, as \<open>pd.read_csv\<close> and \<open>pd.to_numeric\<close> deliver it:
  \<open>MatchDate\<close> is the timestamp that \<open>pd.to_datetime\<close> reads, and the ten numeric
  columns hold an integer or are missing.
\<close>

record raw_row =
  Division :: pystr
  MatchDate :: timestamp
  HomeTeam :: pystr
  AwayTeam :: pystr
  FTHome :: "int option"
  FTAway :: "int option"
  HTHome :: "int option"
  HTAway :: "int option"
  HomeCorners :: "int option"
  AwayCorners :: "int option"
  HomeYellow :: "int option"
  AwayYellow :: "int option"
  HomeRed :: "int option"
  AwayRed :: "int option"

text \<open>
  A row of the feature table. The pipeline reads the four key columns and the final goals;
  \<open>others\<close> holds every other column of the file, under names that differ from those
  of the six columns read (a name shared with a raw column ends the run, see
  \<open>name_clash\<close>). The \<open>date\<close> column is a calendar date, kept as its day number.
\<close>

record feature_row =
  f_date :: int
  f_leagueId :: int
  f_homeTeam :: pystr
  f_awayTeam :: pystr
  homeGoals :: "int option"
  awayGoals :: "int option"
  others :: row

text \<open>
  A raw row after lines 243 to 250: the league is resolved, the teams are mapped and the
  date is parsed.
\<close>

record canon_row =
  c_date :: timestamp
  c_leagueId :: int
  c_homeTeam :: pystr
  c_awayTeam :: pystr
  c_FTHome :: "int option"
  c_FTAway :: "int option"
  c_HTHome :: "int option"
  c_HTAway :: "int option"
  c_HomeCorners :: "int option"
  c_AwayCorners :: "int option"
  c_HomeYellow :: "int option"
  c_AwayYellow :: "int option"
  c_HomeRed :: "int option"
  c_AwayRed :: "int option"

text \<open>
  The exceptions that end a run before anything is written: the \<open>MergeError\<close> of the
  merge, and the \<open>KeyError\<close> of a column that is read but is not there.
\<close>

datatype error = MergeError | KeyError

record report =
  written_to :: string
  cov_fh_goals_total :: nat
  cov_total_cards :: nat
  cov_total_corners :: nat

subsection \<open>Resolving leagues and teams\<close>

text \<open>
  Timestamps count nanoseconds since the epoch, as \<open>pd.Timestamp.value\<close> does.
  \<open>day n\<close> is midnight of the \<open>n\<close>-th day, which is what \<open>pd.to_datetime\<close> makes of a
  calendar date; \<open>calendar_day\<close> is \<open>.dt.date\<close>.
\<close>

definition ns_per_day :: int where
  "ns_per_day = 86400000000000"


definition day :: "int \<Rightarrow> timestamp" where
  "day n = n * ns_per_day"

definition calendar_day :: "timestamp \<Rightarrow> int" where
  "calendar_day t = t div ns_per_day"

text \<open>\<open>raw[\<dots>Norm].map(mappings).fillna(raw[\<dots>])\<close> on one name.\<close>

definition canonical_team :: "ucd \<Rightarrow> (pystr \<rightharpoonup> pystr) \<Rightarrow> pystr \<Rightarrow> pystr" where
  "canonical_team U mappings name =
     (case mappings (normalize_team_name U name) of Some t \<Rightarrow> t | None \<Rightarrow> name)"

text \<open>
  Lines 243 to 250 on one row: \<open>None\<close> when the league label is not resolved and the row
  is dropped.
\<close>

definition canonical :: "ucd \<Rightarrow> (pystr \<rightharpoonup> pystr) \<Rightarrow> raw_row \<Rightarrow> canon_row option" where
  "canonical U mappings r =
     (case resolve_league_id U (Division r) of
        None \<Rightarrow> None
      | Some lid \<Rightarrow>
          Some \<lparr>c_date = MatchDate r, c_leagueId = lid,
                c_homeTeam = canonical_team U mappings (HomeTeam r),
                c_awayTeam = canonical_team U mappings (AwayTeam r),
                c_FTHome = FTHome r, c_FTAway = FTAway r,
                c_HTHome = HTHome r, c_HTAway = HTAway r,
                c_HomeCorners = HomeCorners r, c_AwayCorners = AwayCorners r,
                c_HomeYellow = HomeYellow r, c_AwayYellow = AwayYellow r,
                c_HomeRed = HomeRed r, c_AwayRed = AwayRed r\<rparr>)"

definition canonical_table :: "ucd \<Rightarrow> (pystr \<rightharpoonup> pystr) \<Rightarrow> raw_row list \<Rightarrow> canon_row list" where
  "canonical_table U mappings raw = List.map_filter (canonical U mappings) raw"

text \<open>The number of rows that line 244 drops. The source computes it nowhere.\<close>

definition excluded_rows :: "ucd \<Rightarrow> raw_row list \<Rightarrow> nat" where
  "excluded_rows U raw = length (filter (\<lambda>r. resolve_league_id U (Division r) = None) raw)"

subsection \<open>The pair index\<close>

text \<open>One row of \<open>h2h_source\<close>: the rows without both final goals are left out.\<close>

definition h2h_match :: "canon_row \<Rightarrow> H2HMatch option" where
  "h2h_match r =
     (case (c_FTHome r, c_FTAway r) of
        (Some hg, Some ag) \<Rightarrow>
          Some \<lparr>date = c_date r, home_team = c_homeTeam r, away_team = c_awayTeam r,
                home_goals = hg, away_goals = ag\<rparr>
      | _ \<Rightarrow> None)"

text \<open>
  \<open>pair_map.get(key, [])\<close> after the loop that sorts every list by date: the matches of
  the key in the order of the table, sorted by a stable sort.
\<close>

definition pair_map :: "canon_row list \<Rightarrow> pystr \<Rightarrow> H2HMatch list" where
  "pair_map table key =
     sort_key date
       (filter (\<lambda>m. build_pair_key (home_team m) (away_team m) = key)
          (List.map_filter h2h_match table))"

subsection \<open>The merge\<close>

type_synonym merge_key = "int \<times> int \<times> pystr \<times> pystr"

definition left_key :: "feature_row \<Rightarrow> merge_key" where
  "left_key f = (f_date f, f_leagueId f, f_homeTeam f, f_awayTeam f)"

definition right_key :: "canon_row \<Rightarrow> merge_key" where
  "right_key r = (calendar_day (c_date r), c_leagueId r, c_homeTeam r, c_awayTeam r)"

text \<open>
  \<open>features.merge(raw, on=[\<dots>], how="left", validate="many_to_one")\<close>. pandas first
  checks that the keys of the right table are unique and raises \<open>MergeError\<close> when they
  are not; a left join then keeps every left row in order, once for each right row with
  its key, or once with missing right columns when there is none.
\<close>

definition merge :: "feature_row list \<Rightarrow> canon_row list
    \<Rightarrow> error + (feature_row \<times> canon_row option) list" where
  "merge left right =
     (if \<not> distinct (map right_key right) then Inl MergeError
      else Inr (concat (map (\<lambda>f.
             (case filter (\<lambda>r. right_key r = left_key f) right of
                [] \<Rightarrow> [(f, None)]
              | rs \<Rightarrow> map (\<lambda>r. (f, Some r)) rs)) left)))"

subsection \<open>The derived targets\<close>

definition icell :: "int option \<Rightarrow> cell" where
  "icell x = (case x of Some v \<Rightarrow> Num (of_int v) | None \<Rightarrow> NaN)"

definition qcell :: "rat option \<Rightarrow> cell" where
  "qcell x = (case x of Some v \<Rightarrow> Num v | None \<Rightarrow> NaN)"

text \<open>\<open>.astype("int")\<close> of a comparison.\<close>

definition flag :: "bool \<Rightarrow> cell" where
  "flag b = Num (if b then 1 else 0)"

text \<open>Arithmetic and comparisons with a missing value: the sum is missing, the test is false.\<close>

definition opt_add :: "int option \<Rightarrow> int option \<Rightarrow> int option" where
  "opt_add x y = (case (x, y) of (Some a, Some b) \<Rightarrow> Some (a + b) | _ \<Rightarrow> None)"

definition opt_sub :: "int option \<Rightarrow> int option \<Rightarrow> int option" where
  "opt_sub x y = (case (x, y) of (Some a, Some b) \<Rightarrow> Some (a - b) | _ \<Rightarrow> None)"

definition opt_gt :: "int option \<Rightarrow> rat \<Rightarrow> bool" where
  "opt_gt x line = (case x of Some a \<Rightarrow> of_int a > line | None \<Rightarrow> False)"

definition opt_eq :: "int option \<Rightarrow> int \<Rightarrow> bool" where
  "opt_eq x v = (case x of Some a \<Rightarrow> a = v | None \<Rightarrow> False)"

definition between :: "int option \<Rightarrow> nat \<Rightarrow> nat \<Rightarrow> bool" where
  "between x low high = (case x of Some a \<Rightarrow> int low \<le> a \<and> a \<le> int high | None \<Rightarrow> False)"

text \<open>The decimal of a number below ten, as the f-strings print the bounds.\<close>

definition str_digit :: "nat \<Rightarrow> string" where
  "str_digit n = [''0123456789'' ! n]"

text \<open>
  The lines 0.5 to 5.5 are \<open>k + 1/2\<close> for \<open>k\<close> from 0 to 5; the column of line \<open>k.5\<close> is
  \<open>ou_over_k_5\<close>.
\<close>

definition ou_columns :: "int option \<Rightarrow> (string \<times> cell) list" where
  "ou_columns tot =
     map (\<lambda>k. (''ou_over_'' @ str_digit k @ ''_5'', flag (opt_gt tot (of_nat k + 1 / 2))))
       [0, 1, 2, 3, 4, 5]"

definition total_ranges :: "(nat \<times> nat) list" where
  "total_ranges =
     [(1, 2), (1, 3), (1, 4), (1, 5), (1, 6), (2, 3), (2, 4), (2, 5), (2, 6),
      (3, 4), (3, 5), (3, 6), (4, 5), (4, 6), (5, 6)]"

definition range_columns :: "int option \<Rightarrow> int option \<Rightarrow> int option \<Rightarrow> (string \<times> cell) list" where
  "range_columns tot hg ag =
     concat (map (\<lambda>(low, high).
       [(''total_range_'' @ str_digit low @ ''_'' @ str_digit high, flag (between tot low high)),
        (''home_range_'' @ str_digit low @ ''_'' @ str_digit high, flag (between hg low high)),
        (''away_range_'' @ str_digit low @ ''_'' @ str_digit high, flag (between ag low high))])
       total_ranges)"

definition half_result :: "int option \<Rightarrow> int option \<Rightarrow> cell" where
  "half_result hth hta =
     (case (hth, hta) of
        (Some h, Some a) \<Rightarrow>
          if h > a then Str (py ''HOME'') else if h < a then Str (py ''AWAY'') else Str (py ''DRAW'')
      | _ \<Rightarrow> NaN)"

definition h2h_columns :: "string \<Rightarrow> snapshot \<Rightarrow> (string \<times> cell) list" where
  "h2h_columns prefix s =
     [(prefix @ ''matches'', Num (of_nat (matches s))),
      (prefix @ ''home_win_pct'', qcell (home_win_pct s)),
      (prefix @ ''away_win_pct'', qcell (away_win_pct s)),
      (prefix @ ''draw_pct'', qcell (draw_pct s)),
      (prefix @ ''avg_goals'', qcell (avg_goals s)),
      (prefix @ ''btts_pct'', qcell (btts_pct s)),
      (prefix @ ''over_2_5_pct'', qcell (over_2_5_pct s))]"

text \<open>The eight columns that line 289 keeps of the raw table beside the key.\<close>

definition raw_columns :: "string list" where
  "raw_columns =
     [''HTHome'', ''HTAway'', ''HomeCorners'', ''AwayCorners'', ''HomeYellow'', ''AwayYellow'',
      ''HomeRed'', ''AwayRed'']"

text \<open>
  A feature table that has a column under one of these names: the merge then renames both
  columns (suffixes \<open>_x\<close> and \<open>_y\<close>), and the first read of the name, in lines 355 to
  374, raises \<open>KeyError\<close>.
\<close>

definition name_clash :: "feature_row list \<Rightarrow> bool" where
  "name_clash features =
     list_ex (\<lambda>f. list_ex (\<lambda>c. c \<in> set (map fst (others f))) raw_columns) features"

text \<open>
  The row that the merge produces when no name clashes: the columns of the feature row,
  then the eight raw columns, missing when no raw row matched.
\<close>

definition merged_row :: "feature_row \<Rightarrow> canon_row option \<Rightarrow> row" where
  "merged_row f r =
     assign_all (others f)
       [(''date'', Day (f_date f)), (''leagueId'', Num (of_int (f_leagueId f))),
        (''homeTeam'', Str (f_homeTeam f)), (''awayTeam'', Str (f_awayTeam f)),
        (''homeGoals'', icell (homeGoals f)), (''awayGoals'', icell (awayGoals f)),
        (''HTHome'', icell (Option.bind r c_HTHome)),
        (''HTAway'', icell (Option.bind r c_HTAway)),
        (''HomeCorners'', icell (Option.bind r c_HomeCorners)),
        (''AwayCorners'', icell (Option.bind r c_AwayCorners)),
        (''HomeYellow'', icell (Option.bind r c_HomeYellow)),
        (''AwayYellow'', icell (Option.bind r c_AwayYellow)),
        (''HomeRed'', icell (Option.bind r c_HomeRed)),
        (''AwayRed'', icell (Option.bind r c_AwayRed))]"

text \<open>Lines 314 to 375 and 405 to 419: the columns assigned to \<open>merged\<close>, in order.\<close>

definition derived_columns :: "feature_row \<Rightarrow> canon_row option \<Rightarrow> snapshot \<Rightarrow> snapshot
    \<Rightarrow> (string \<times> cell) list" where
  "derived_columns f r overall venue =
     (let hg = homeGoals f; ag = awayGoals f;
          hth = Option.bind r c_HTHome; hta = Option.bind r c_HTAway;
          totalGoals = opt_add hg ag;
          fh_goals_total = opt_add hth hta;
          home_cards = opt_add (Option.bind r c_HomeYellow) (Option.bind r c_HomeRed);
          away_cards = opt_add (Option.bind r c_AwayYellow) (Option.bind r c_AwayRed);
          home_corners = Option.bind r c_HomeCorners;
          away_corners = Option.bind r c_AwayCorners
      in [(''totalGoals'', icell totalGoals),
          (''btts_yes'', flag (opt_gt hg 0 \<and> opt_gt ag 0))]
         @ ou_columns totalGoals
         @ range_columns totalGoals hg ag
         @ [(''clean_sheet_home'', flag (opt_eq ag 0)),
            (''clean_sheet_away'', flag (opt_eq hg 0)),
            (''fh_goals_total'', icell fh_goals_total),
            (''sh_goals_total'', icell (opt_sub totalGoals fh_goals_total)),
            (''fh_result'', half_result hth hta),
            (''home_cards'', icell home_cards),
            (''away_cards'', icell away_cards),
            (''total_cards'', icell (opt_add home_cards away_cards)),
            (''home_corners'', icell home_corners),
            (''away_corners'', icell away_corners),
            (''total_corners'', icell (opt_add home_corners away_corners))]
         @ h2h_columns ''h2h_overall_'' overall
         @ h2h_columns ''h2h_venue_'' venue)"

subsection \<open>\<open>main\<close>\<close>

text \<open>
  The output row of one merged row: the head-to-head statistics are computed from the
  pair index for the fixture's teams and the midnight of its date.
\<close>

definition out_row :: "(pystr \<Rightarrow> H2HMatch list) \<Rightarrow> feature_row \<Rightarrow> canon_row option \<Rightarrow> row" where
  "out_row pm f r =
     (let current_date = day (f_date f);
          key = build_pair_key (f_homeTeam f) (f_awayTeam f);
          ms = pm key;
          overall_stats = compute_h2h_stats ms (f_homeTeam f) (f_awayTeam f) current_date 5 False;
          venue_stats = compute_h2h_stats ms (f_homeTeam f) (f_awayTeam f) current_date 5 True
      in assign_all (merged_row f r) (derived_columns f r overall_stats venue_stats))"

definition count_notna :: "string \<Rightarrow> row list \<Rightarrow> nat" where
  "count_notna col rows = length (filter (\<lambda>r. notna (cell_of r col)) rows)"

text \<open>The dictionary \<open>coverage\<close> and the path, which the two \<open>print\<close> calls show.\<close>

definition coverage :: "string \<Rightarrow> row list \<Rightarrow> report" where
  "coverage out_path rows =
     \<lparr>written_to = out_path,
      cov_fh_goals_total = count_notna ''fh_goals_total'' rows,
      cov_total_cards = count_notna ''total_cards'' rows,
      cov_total_corners = count_notna ''total_corners'' rows\<rparr>"

text \<open>
  The run: the rows written to \<open>out_path\<close> and the report printed, or the exception
  raised before anything is written. The merge raises \<open>MergeError\<close> (line 307); a name
  clash raises \<open>KeyError\<close> (lines 355 to 374); and when the merged table has no row,
  \<open>pd.DataFrame(h2h_overall)\<close> is made of the empty list and has no column, so that
  \<open>overall_df["matches"]\<close> raises \<open>KeyError\<close> (line 405).
\<close>

definition main :: "ucd \<Rightarrow> feature_row list \<Rightarrow> raw_row list \<Rightarrow> (pystr \<rightharpoonup> pystr) \<Rightarrow> string
    \<Rightarrow> error + (row list \<times> report)" where
  "main U features raw mappings out_path =
     (let table = canonical_table U mappings raw;
          pm = pair_map table
      in case merge features table of
           Inl e \<Rightarrow> Inl e
         | Inr merged \<Rightarrow>
             if name_clash features then Inl KeyError
             else if merged = [] then Inl KeyError
             else
               (let rows = map (\<lambda>(f, r). out_row pm f r) merged
                in Inr (rows, coverage out_path rows)))"

text \<open>The cells of one column of the output, row by row (\<open>None\<close> where the row lacks it).\<close>

definition output_column :: "string \<Rightarrow> error + (row list \<times> report) \<Rightarrow> cell option list" where
  "output_column col res = (case res of Inl e \<Rightarrow> [] | Inr (rows, rep) \<Rightarrow> map (\<lambda>r. cell_of r col) rows)"

section \<open>Concrete inputs\<close>

subsection \<open>A fixture, two raw rows and a team map\<close>

definition fixture1 :: feature_row where
  "fixture1 =
     \<lparr>f_date = 18993, f_leagueId = 39, f_homeTeam = py ''Arsenal'', f_awayTeam = py ''Chelsea'',
      homeGoals = Some 2, awayGoals = Some 1, others = [(''season'', Num 2021)]\<rparr>"

definition raw_match :: raw_row where
  "raw_match =
     \<lparr>Division = py ''E0'', MatchDate = day 18993, HomeTeam = py ''Arsenal FC'',
      AwayTeam = py ''Chelsea'', FTHome = Some 2, FTAway = Some 1, HTHome = Some 1,
      HTAway = Some 0, HomeCorners = Some 5, AwayCorners = Some 3, HomeYellow = Some 1,
      AwayYellow = Some 2, HomeRed = Some 0, AwayRed = Some 0\<rparr>"

definition raw_unresolved :: raw_row where
  "raw_unresolved =
     \<lparr>Division = py ''XX'', MatchDate = day 18000, HomeTeam = py ''Arsenal'',
      AwayTeam = py ''Chelsea'', FTHome = Some 1, FTAway = Some 0, HTHome = Some 0,
      HTAway = Some 0, HomeCorners = None, AwayCorners = None, HomeYellow = None,
      AwayYellow = None, HomeRed = None, AwayRed = None\<rparr>"

definition team_map :: "pystr \<rightharpoonup> pystr" where
  "team_map = map_of [(py ''arsenal'', py ''Arsenal'')]"

definition fixture2 :: feature_row where
  "fixture2 = fixture1\<lparr>others := [(''result'', Str (py ''AWAY''))]\<rparr>"

subsection \<open>The worked scenario of the specification\<close>

text \<open>2021-01-01, 2021-06-01 and 2022-01-01 are the days 18628, 18779 and 18993.\<close>

definition scenario_history :: "H2HMatch list" where
  "scenario_history =
     [\<lparr>date = day 18628, home_team = py ''TeamA'', away_team = py ''TeamB'',
       home_goals = 2, away_goals = 1\<rparr>,
      \<lparr>date = day 18779, home_team = py ''TeamB'', away_team = py ''TeamA'',
       home_goals = 0, away_goals = 0\<rparr>]"


section \<open>Properties of the head-to-head aggregator\<close>

subsection \<open>Binary search\<close>

lemma bisect_loop_bounds:
  "lo \<le> hi \<Longrightarrow> lo \<le> bisect_loop a x lo hi \<and> bisect_loop a x lo hi \<le> hi"
proof (induction a x lo hi rule: bisect_loop.induct)
  case (1 a x lo hi)
  show ?case
  proof (cases "lo < hi")
    case False
    with "1.prems" show ?thesis by simp
  next
    case True
    let ?mid = "(lo + hi) div 2"
    have m: "lo \<le> ?mid" "?mid + 1 \<le> hi" using True by auto
    show ?thesis
    proof (cases "a ! ?mid < x")
      case lt: True
      have "?mid + 1 \<le> bisect_loop a x (?mid + 1) hi \<and> bisect_loop a x (?mid + 1) hi \<le> hi"
        using "1.IH"(1)[OF True refl lt m(2)] .
      moreover have "bisect_loop a x lo hi = bisect_loop a x (?mid + 1) hi"
        using True lt by (subst bisect_loop.simps) (simp add: Let_def)
      ultimately show ?thesis using m by simp
    next
      case ge: False
      have "lo \<le> bisect_loop a x lo ?mid \<and> bisect_loop a x lo ?mid \<le> ?mid"
        using "1.IH"(2)[OF True refl ge m(1)] .
      moreover have "bisect_loop a x lo hi = bisect_loop a x lo ?mid"
        using True ge by (subst bisect_loop.simps) (simp add: Let_def)
      ultimately show ?thesis using m by simp
    qed
  qed
qed

lemma bisect_loop_below:
  "sorted a \<Longrightarrow> lo \<le> hi \<Longrightarrow> hi \<le> length a \<Longrightarrow> \<forall>i<lo. a ! i < x \<Longrightarrow>
   i < bisect_loop a x lo hi \<Longrightarrow> a ! i < x"
proof (induction a x lo hi rule: bisect_loop.induct)
  case (1 a x lo hi)
  show ?case
  proof (cases "lo < hi")
    case False
    then have "bisect_loop a x lo hi = lo" by simp
    with "1.prems" show ?thesis by simp
  next
    case True
    let ?mid = "(lo + hi) div 2"
    have m: "lo \<le> ?mid" "?mid + 1 \<le> hi" "?mid < length a" using True "1.prems"(3) by auto
    show ?thesis
    proof (cases "a ! ?mid < x")
      case lt: True
      have eq: "bisect_loop a x lo hi = bisect_loop a x (?mid + 1) hi"
        using True lt by (subst bisect_loop.simps) (simp add: Let_def)
      have below: "\<forall>j<?mid + 1. a ! j < x"
      proof (intro allI impI)
        fix j assume "j < ?mid + 1"
        then have "j \<le> ?mid" by simp
        then have "a ! j \<le> a ! ?mid"
          using \<open>sorted a\<close> m(3) by (simp add: sorted_iff_nth_mono)
        with lt show "a ! j < x" by simp
      qed
      show ?thesis
        using "1.IH"(1)[OF True refl lt \<open>sorted a\<close> m(2) "1.prems"(3) below] "1.prems"(5) eq
        by simp
    next
      case ge: False
      have eq: "bisect_loop a x lo hi = bisect_loop a x lo ?mid"
        using True ge by (subst bisect_loop.simps) (simp add: Let_def)
      have "?mid \<le> length a" using m(3) by simp
      from "1.IH"(2)[OF True refl ge \<open>sorted a\<close> m(1) this "1.prems"(4)] "1.prems"(5) eq
      show ?thesis by simp
    qed
  qed
qed

lemma bisect_left_le_length: "bisect_left a x \<le> length a"
  using bisect_loop_bounds [of 0 "length a" a x] by (simp add: bisect_left_def)

lemma bisect_left_below: "sorted a \<Longrightarrow> i < bisect_left a x \<Longrightarrow> a ! i < x"
  using bisect_loop_below [of a 0 "length a" x i] by (simp add: bisect_left_def)

subsection \<open>The selection\<close>

lemma set_slice_last: "set (slice_last xs k) \<subseteq> set xs"
  by (simp add: slice_last_def Let_def set_drop_subset)

lemma set_venue_scan:
  "n \<le> length ms \<Longrightarrow> set (venue_scan ms h a k n sel) \<subseteq> set sel \<union> set (take n ms)"
proof (induction n arbitrary: sel)
  case 0
  then show ?case by simp
next
  case (Suc n)
  then have n: "n < length ms" by simp
  have t: "set (take (Suc n) ms) = insert (ms ! n) (set (take n ms))"
    using n by (simp add: take_Suc_conv_app_nth)
  have ih: "set (venue_scan ms h a k n sel') \<subseteq> set sel' \<union> set (take n ms)" for sel'
    using Suc.IH [of sel'] n by simp
  show ?case
    using ih [of sel] ih [of "sel @ [ms ! n]"] t
    by (auto simp: Let_def)
qed

lemma set_select_matches:
  "cutoff \<le> length ms \<Longrightarrow> set (select_matches ms h a cutoff k v) \<subseteq> set (take cutoff ms)"
  using set_venue_scan [of cutoff ms h a k "[]"] set_slice_last [of "take cutoff ms" k]
  by (simp add: select_matches_def)

lemma length_venue_scan_le:
  "length (venue_scan ms h a k n sel) \<le> length sel + n"
proof (induction n arbitrary: sel)
  case 0
  then show ?case by simp
next
  case (Suc n)
  show ?case
    using Suc.IH [of sel] Suc.IH [of "sel @ [ms ! n]"] by (auto simp: Let_def)
qed

lemma length_venue_scan_cap:
  "int (length sel) < max k 1 \<Longrightarrow> int (length (venue_scan ms h a k n sel)) \<le> max k 1"
proof (induction n arbitrary: sel)
  case 0
  then show ?case by simp
next
  case (Suc n)
  show ?case
    using Suc.IH [of sel] Suc.IH [of "sel @ [ms ! n]"] Suc.prems by (auto simp: Let_def)
qed

lemma length_slice_last:
  "0 \<le> k \<Longrightarrow> length (slice_last xs k) = (if k = 0 then length xs else min (length xs) (nat k))"
  by (auto simp: slice_last_def Let_def)

lemma matches_compute:
  "matches (compute_h2h_stats ms h a d k v) = length (h2h_selected ms h a d k v)"
  by (simp add: compute_h2h_stats_def h2h_selected_def Let_def empty_snapshot_def snapshot_of_def)

lemma compute_eq:
  "compute_h2h_stats ms h a d k v =
     (if h2h_selected ms h a d k v = [] then empty_snapshot
      else snapshot_of h (h2h_selected ms h a d k v))"
  by (simp add: compute_h2h_stats_def h2h_selected_def Let_def)

subsection \<open>The tally\<close>

lemma tally_step_sum:
  "home_wins (tally_step h t m) + away_wins (tally_step h t m) + draws (tally_step h t m)
     = home_wins t + away_wins t + draws t + 1"
  by (simp add: tally_step_def Let_def)

lemma foldl_tally_sum:
  "home_wins (foldl (tally_step h) t xs) + away_wins (foldl (tally_step h) t xs)
     + draws (foldl (tally_step h) t xs)
   = home_wins t + away_wins t + draws t + length xs"
  by (induction xs arbitrary: t) (simp_all add: tally_step_sum)

lemma tally_all_sum:
  "home_wins (tally_all h xs) + away_wins (tally_all h xs) + draws (tally_all h xs) = length xs"
  using foldl_tally_sum [of h tally0 xs] by (simp add: tally_all_def tally0_def)

lemma pct_sum:
  assumes "0 < n" and "a + b + c = n"
  shows "(of_nat a / of_nat n) * (100::rat) + (of_nat b / of_nat n) * 100
           + (of_nat c / of_nat n) * 100 = 100"
proof -
  have "(of_nat a + of_nat b + of_nat c :: rat) = of_nat n"
    using assms(2) by (simp flip: of_nat_add)
  then have "(of_nat a + of_nat b + of_nat c) / (of_nat n :: rat) = 1"
    using assms(1) by simp
  then have "of_nat a / of_nat n + of_nat b / of_nat n + of_nat c / (of_nat n :: rat) = 1"
    by (simp add: add_divide_distrib)
  then have "(of_nat a / of_nat n + of_nat b / of_nat n + of_nat c / (of_nat n :: rat)) * 100 = 100"
    by simp
  then show ?thesis by (simp add: distrib_right)
qed

subsection \<open>Causality\<close>

text \<open>
  Claim C1. When the history is sorted by date, every match that \<open>compute_h2h_stats\<close>
  selects, in the overall and in the venue variant and for every \<open>max_matches\<close>, is dated
  strictly before the fixture.
\<close>

theorem causality:
  assumes "sorted (map date ms)"
    and "m \<in> set (h2h_selected ms current_home current_away current_date max_matches venue_only)"
  shows "date m < current_date"
proof -
  let ?c = "bisect_left (map date ms) current_date"
  have c: "?c \<le> length ms" using bisect_left_le_length [of "map date ms" current_date] by simp
  from assms(2) have "m \<in> set (select_matches ms current_home current_away ?c max_matches venue_only)"
    by (auto simp: h2h_selected_def Let_def split: if_splits)
  with set_select_matches [OF c] have "m \<in> set (take ?c ms)" by blast
  then obtain i where i: "i < ?c" "i < length ms" "m = ms ! i"
    by (auto simp: in_set_conv_nth)
  from bisect_left_below [OF assms(1) i(1)] i show ?thesis by simp
qed

theorem causality_witness:
  "sorted (map date scenario_history)
   \<and> scenario_history ! 1 \<in> set (h2h_selected scenario_history (py ''TeamA'') (py ''TeamB'')
         (day 18993) 5 False)
   \<and> date (scenario_history ! 1) < day 18993"
proof -
  have s: "sorted (map date scenario_history)"
    by code_simp
  have m: "scenario_history ! 1 \<in> set (h2h_selected scenario_history (py ''TeamA'') (py ''TeamB'')
         (day 18993) 5 False)"
    by code_simp
  from causality [OF s m] s m show ?thesis by simp
qed

subsection \<open>The worked scenario\<close>

text \<open>
  Claim C2, as the code computes it. For the history 2-1 (TeamA at home) and 0-0 (TeamB at
  home) and the fixture TeamA against TeamB on 2022-01-01, the overall snapshot has 2
  matches, 50 percent home wins, 50 percent draws, no away win and 1.5 goals on average;
  the 2-1 match has both teams scoring and three goals, so \<open>btts_pct\<close> and
  \<open>over_2_5_pct\<close> are 50, not 0. The venue snapshot has 1 match and 100 percent home
  wins.
\<close>

theorem scenario:
  "compute_h2h_stats scenario_history (py ''TeamA'') (py ''TeamB'') (day 18993) 5 False
     = \<lparr>matches = 2, home_win_pct = Some 50, away_win_pct = Some 0, draw_pct = Some 50,
        avg_goals = Some (3 / 2), btts_pct = Some 50, over_2_5_pct = Some 50\<rparr>
   \<and> matches (compute_h2h_stats scenario_history (py ''TeamA'') (py ''TeamB'') (day 18993) 5 True) = 1
   \<and> home_win_pct (compute_h2h_stats scenario_history (py ''TeamA'') (py ''TeamB'') (day 18993) 5 True)
       = Some 100"
  by code_simp

text \<open>The values the specification gives for \<open>btts_pct\<close> and \<open>over_2_5_pct\<close> are not returned.\<close>

theorem scenario_counterexample:
  "btts_pct (compute_h2h_stats scenario_history (py ''TeamA'') (py ''TeamB'') (day 18993) 5 False)
     \<noteq> Some 0
   \<and> over_2_5_pct (compute_h2h_stats scenario_history (py ''TeamA'') (py ''TeamB'') (day 18993) 5 False)
     \<noteq> Some 0"
  by code_simp

subsection \<open>Venue count against overall count\<close>

text \<open>
  Claim C8. For every history (sorted by date or not), every fixture and every cap
  \<open>max_matches\<close> (a number of matches, so not negative; the pipeline passes 5), the same
  in both variants, the venue snapshot counts at most as many matches as the overall
  snapshot, although the venue loop scans all the eligible history.
\<close>

theorem venue_le_overall:
  assumes "0 \<le> max_matches"
  shows "matches (compute_h2h_stats ms current_home current_away current_date max_matches True)
       \<le> matches (compute_h2h_stats ms current_home current_away current_date max_matches False)"
proof -
  let ?c = "bisect_left (map date ms) current_date"
  have c: "?c \<le> length ms" using bisect_left_le_length [of "map date ms" current_date] by simp
  show ?thesis
  proof (cases "ms = [] \<or> ?c = 0")
    case True
    then show ?thesis by (auto simp: matches_compute h2h_selected_def)
  next
    case False
    then have pos: "0 < ?c" by simp
    let ?v = "venue_scan ms current_home current_away max_matches ?c []"
    have v1: "length ?v \<le> ?c"
      using length_venue_scan_le [of ms current_home current_away max_matches ?c "[]"] by simp
    have v2: "int (length ?v) \<le> max max_matches 1"
      using length_venue_scan_cap [of "[]" max_matches ms current_home current_away ?c] by simp
    have o: "length (slice_last (take ?c ms) max_matches)
               = (if max_matches = 0 then ?c else min ?c (nat max_matches))"
      using length_slice_last [OF assms, of "take ?c ms"] c by (simp add: min_absorb2)
    have "length ?v \<le> length (slice_last (take ?c ms) max_matches)"
    proof (cases "max_matches = 0")
      case True
      with v1 o show ?thesis by simp
    next
      case False
      with assms have "1 \<le> max_matches" by simp
      with v2 have "length ?v \<le> nat max_matches" by simp
      with v1 o False show ?thesis by simp
    qed
    with False show ?thesis
      by (simp add: matches_compute h2h_selected_def select_matches_def Let_def)
  qed
qed

theorem venue_le_overall_witness:
  "(0::int) \<le> 5
   \<and> matches (compute_h2h_stats scenario_history (py ''TeamA'') (py ''TeamB'') (day 18993) 5 True)
     \<le> matches (compute_h2h_stats scenario_history (py ''TeamA'') (py ''TeamB'') (day 18993) 5 False)"
proof -
  have h: "(0::int) \<le> 5" by simp
  from venue_le_overall [OF h, of scenario_history "py ''TeamA''" "py ''TeamB''" "day 18993"] h
  show ?thesis by simp
qed

subsection \<open>Empty selection\<close>

lemma bisect_left_none_before:
  assumes "sorted a" and "\<forall>y\<in>set a. x \<le> y"
  shows "bisect_left a x = 0"
proof (rule ccontr)
  assume "bisect_left a x \<noteq> 0"
  then have pos: "0 < bisect_left a x" by simp
  with bisect_left_le_length [of a x] have "0 < length a" by linarith
  then have "a ! 0 \<in> set a" by simp
  with assms(2) have "x \<le> a ! 0" by blast
  with bisect_left_below [OF assms(1) pos] show False by simp
qed

lemma venue_scan_none:
  "\<forall>i<n. \<not> (home_team (ms ! i) = h \<and> away_team (ms ! i) = a) \<Longrightarrow>
     venue_scan ms h a k n sel = sel"
  by (induction n) (auto simp: Let_def less_Suc_eq)

lemma selected_empty_history: "h2h_selected [] h a d k v = []"
  by (simp add: h2h_selected_def)

lemma selected_none_prior:
  assumes "sorted (map date ms)" and "\<forall>m\<in>set ms. d \<le> date m"
  shows "h2h_selected ms h a d k v = []"
proof -
  have "bisect_left (map date ms) d = 0"
    using assms by (intro bisect_left_none_before) auto
  then show ?thesis by (simp add: h2h_selected_def)
qed

lemma selected_no_venue:
  assumes "\<forall>m\<in>set ms. \<not> (home_team m = h \<and> away_team m = a)"
  shows "h2h_selected ms h a d k True = []"
proof -
  let ?c = "bisect_left (map date ms) d"
  have "?c \<le> length ms" using bisect_left_le_length [of "map date ms" d] by simp
  then have "\<forall>i<?c. \<not> (home_team (ms ! i) = h \<and> away_team (ms ! i) = a)"
    using assms by (auto simp: all_set_conv_all_nth)
  then have "venue_scan ms h a k ?c [] = []" by (rule venue_scan_none)
  then show ?thesis by (simp add: h2h_selected_def select_matches_def Let_def)
qed


text \<open>
  Claim C9. Whenever no match is selected, the snapshot has \<open>matches = 0\<close> and
  \<open>None\<close> in every other field; and no match is selected when the history is empty,
  when the history is sorted and no match is dated before the fixture, and, in the venue
  variant, when no match has the fixture's home and away teams.
\<close>

theorem empty_history:
  "(h2h_selected ms current_home current_away current_date max_matches venue_only = [] \<longrightarrow>
      compute_h2h_stats ms current_home current_away current_date max_matches venue_only
        = \<lparr>matches = 0, home_win_pct = None, away_win_pct = None, draw_pct = None,
           avg_goals = None, btts_pct = None, over_2_5_pct = None\<rparr>)
   \<and> h2h_selected [] current_home current_away current_date max_matches venue_only = []
   \<and> (sorted (map date ms) \<and> (\<forall>m\<in>set ms. current_date \<le> date m) \<longrightarrow>
        h2h_selected ms current_home current_away current_date max_matches venue_only = [])
   \<and> ((\<forall>m\<in>set ms. \<not> (home_team m = current_home \<and> away_team m = current_away)) \<longrightarrow>
        h2h_selected ms current_home current_away current_date max_matches True = [])"
proof -
  have "h2h_selected ms current_home current_away current_date max_matches venue_only = [] \<Longrightarrow>
      compute_h2h_stats ms current_home current_away current_date max_matches venue_only
        = \<lparr>matches = 0, home_win_pct = None, away_win_pct = None, draw_pct = None,
           avg_goals = None, btts_pct = None, over_2_5_pct = None\<rparr>"
    by (simp add: compute_eq empty_snapshot_def)
  then show ?thesis
    using selected_empty_history selected_none_prior selected_no_venue by blast
qed

theorem empty_history_witness:
  "h2h_selected [] (py ''TeamA'') (py ''TeamB'') (day 18993) 5 False = []
   \<and> compute_h2h_stats [] (py ''TeamA'') (py ''TeamB'') (day 18993) 5 False
       = \<lparr>matches = 0, home_win_pct = None, away_win_pct = None, draw_pct = None,
          avg_goals = None, btts_pct = None, over_2_5_pct = None\<rparr>
   \<and> sorted (map date scenario_history)
   \<and> list_all (\<lambda>m. day 18628 \<le> date m) scenario_history
   \<and> h2h_selected scenario_history (py ''TeamA'') (py ''TeamB'') (day 18628) 5 False = []
   \<and> compute_h2h_stats scenario_history (py ''TeamA'') (py ''TeamB'') (day 18628) 5 False
       = \<lparr>matches = 0, home_win_pct = None, away_win_pct = None, draw_pct = None,
          avg_goals = None, btts_pct = None, over_2_5_pct = None\<rparr>
   \<and> list_all (\<lambda>m. \<not> (home_team m = py ''TeamB'' \<and> away_team m = py ''TeamC'')) scenario_history
   \<and> h2h_selected scenario_history (py ''TeamB'') (py ''TeamC'') (day 18993) 5 True = []
   \<and> compute_h2h_stats scenario_history (py ''TeamB'') (py ''TeamC'') (day 18993) 5 True
       = \<lparr>matches = 0, home_win_pct = None, away_win_pct = None, draw_pct = None,
          avg_goals = None, btts_pct = None, over_2_5_pct = None\<rparr>"
proof -
  have s: "sorted (map date scenario_history)"
    by code_simp
  have p: "list_all (\<lambda>m. day 18628 \<le> date m) scenario_history"
    by code_simp
  have v: "list_all (\<lambda>m. \<not> (home_team m = py ''TeamB'' \<and> away_team m = py ''TeamC'')) scenario_history"
    by code_simp
  note e1 = empty_history [of "[]" "py ''TeamA''" "py ''TeamB''" "day 18993" 5 False]
  note e2 = empty_history [of scenario_history "py ''TeamA''" "py ''TeamB''" "day 18628" 5 False]
  note e3 = empty_history [of scenario_history "py ''TeamB''" "py ''TeamC''" "day 18993" 5 True]
  from p have p': "\<forall>m\<in>set scenario_history. day 18628 \<le> date m" by (simp add: list_all_iff)
  from v have v': "\<forall>m\<in>set scenario_history. \<not> (home_team m = py ''TeamB'' \<and> away_team m = py ''TeamC'')"
    by (simp add: list_all_iff)
  have a: "h2h_selected [] (py ''TeamA'') (py ''TeamB'') (day 18993) 5 False = []"
    using e1 by blast
  have b: "h2h_selected scenario_history (py ''TeamA'') (py ''TeamB'') (day 18628) 5 False = []"
    using e2 s p' by blast
  have c: "h2h_selected scenario_history (py ''TeamB'') (py ''TeamC'') (day 18993) 5 True = []"
    using e3 v' by blast
  from a b c e1 e2 e3 s p v show ?thesis by blast
qed

subsection \<open>The three result percentages\<close>

text \<open>
  Claim C10. When the snapshot counts at least one match, the home-win, away-win and draw
  percentages are rationals between 0 and 100 whose sum is exactly 100.
\<close>

theorem percentages_sum:
  assumes "0 < matches (compute_h2h_stats ms current_home current_away current_date max_matches venue_only)"
  shows "\<exists>hw aw dr.
           home_win_pct (compute_h2h_stats ms current_home current_away current_date max_matches venue_only) = Some hw
         \<and> away_win_pct (compute_h2h_stats ms current_home current_away current_date max_matches venue_only) = Some aw
         \<and> draw_pct (compute_h2h_stats ms current_home current_away current_date max_matches venue_only) = Some dr
         \<and> 0 \<le> hw \<and> hw \<le> 100 \<and> 0 \<le> aw \<and> aw \<le> 100 \<and> 0 \<le> dr \<and> dr \<le> 100
         \<and> hw + aw + dr = 100"
proof -
  let ?sel = "h2h_selected ms current_home current_away current_date max_matches venue_only"
  let ?t = "tally_all current_home ?sel"
  let ?n = "length ?sel"
  from assms have ne: "?sel \<noteq> []" by (simp add: matches_compute)
  then have n: "0 < ?n" by simp
  have eq: "compute_h2h_stats ms current_home current_away current_date max_matches venue_only
              = snapshot_of current_home ?sel"
    using ne by (simp add: compute_eq)
  have sum: "home_wins ?t + away_wins ?t + draws ?t = ?n" by (rule tally_all_sum)
  have le: "home_wins ?t \<le> ?n" "away_wins ?t \<le> ?n" "draws ?t \<le> ?n" using sum by linarith+
  have pct: "0 \<le> (of_nat k / of_nat ?n) * (100::rat) \<and> (of_nat k / of_nat ?n) * (100::rat) \<le> 100"
    if "k \<le> ?n" for k
    using that n by (simp add: divide_le_eq)
  have s100: "(of_nat (home_wins ?t) / of_nat ?n) * (100::rat)
          + (of_nat (away_wins ?t) / of_nat ?n) * 100 + (of_nat (draws ?t) / of_nat ?n) * 100 = 100"
    using pct_sum [OF n sum] .
  have f: "home_win_pct (snapshot_of current_home ?sel) = Some ((of_nat (home_wins ?t) / of_nat ?n) * 100)"
    "away_win_pct (snapshot_of current_home ?sel) = Some ((of_nat (away_wins ?t) / of_nat ?n) * 100)"
    "draw_pct (snapshot_of current_home ?sel) = Some ((of_nat (draws ?t) / of_nat ?n) * 100)"
    by (simp_all add: snapshot_of_def Let_def)
  show ?thesis
    unfolding eq f using pct [OF le(1)] pct [OF le(2)] pct [OF le(3)] s100
    by blast
qed

theorem percentages_sum_witness:
  "0 < matches (compute_h2h_stats scenario_history (py ''TeamA'') (py ''TeamB'') (day 18993) 5 False)
   \<and> (\<exists>hw aw dr.
         home_win_pct (compute_h2h_stats scenario_history (py ''TeamA'') (py ''TeamB'') (day 18993) 5 False) = Some hw
       \<and> away_win_pct (compute_h2h_stats scenario_history (py ''TeamA'') (py ''TeamB'') (day 18993) 5 False) = Some aw
       \<and> draw_pct (compute_h2h_stats scenario_history (py ''TeamA'') (py ''TeamB'') (day 18993) 5 False) = Some dr
       \<and> 0 \<le> hw \<and> hw \<le> 100 \<and> 0 \<le> aw \<and> aw \<le> 100 \<and> 0 \<le> dr \<and> dr \<le> 100
       \<and> hw + aw + dr = 100)"
proof -
  have p: "0 < matches (compute_h2h_stats scenario_history (py ''TeamA'') (py ''TeamB'') (day 18993) 5 False)"
    by code_simp
  from percentages_sum [OF p] p show ?thesis by blast
qed

section \<open>Properties of the name canonicalizer\<close>

subsection \<open>Splitting, joining and stripping\<close>

lemma split_ws_append:
  "\<forall>c\<in>set p. \<not> sp c \<Longrightarrow> split_ws sp (p @ rest) w = split_ws sp rest (w @ p)"
  by (induction p arbitrary: w) simp_all

lemma split_ws_parts:
  "\<forall>c\<in>set w. \<not> sp c \<Longrightarrow> p \<in> set (split_ws sp s w) \<Longrightarrow>
     p \<noteq> [] \<and> (\<forall>c\<in>set p. \<not> sp c) \<and> set p \<subseteq> set s \<union> set w"
proof (induction s arbitrary: w p)
  case Nil
  then show ?case by (auto split: if_splits)
next
  case (Cons c cs)
  show ?case
  proof (cases "sp c")
    case True
    show ?thesis
    proof (cases "w = []")
      case True
      with \<open>sp c\<close> Cons.prems(2) have "p \<in> set (split_ws sp cs [])" by simp
      from Cons.IH [OF _ this] show ?thesis by auto
    next
      case False
      with \<open>sp c\<close> Cons.prems(2) have "p = w \<or> p \<in> set (split_ws sp cs [])" by auto
      then show ?thesis
      proof
        assume "p = w"
        with False Cons.prems(1) show ?thesis by auto
      next
        assume "p \<in> set (split_ws sp cs [])"
        from Cons.IH [OF _ this] show ?thesis by auto
      qed
    qed
  next
    case False
    with Cons.prems(2) have m: "p \<in> set (split_ws sp cs (w @ [c]))" by simp
    have "\<forall>c\<in>set (w @ [c]). \<not> sp c" using False Cons.prems(1) by auto
    from Cons.IH [OF this m] show ?thesis by auto
  qed
qed

lemma split_ws_join:
  "sp 32 \<Longrightarrow> \<forall>p\<in>set parts. p \<noteq> [] \<and> (\<forall>c\<in>set p. \<not> sp c) \<Longrightarrow>
     split_ws sp (py_join [32] parts) [] = parts"
proof (induction "[32::nat]" parts rule: py_join.induct)
  case 1
  then show ?case by simp
next
  case (2 p)
  then have "split_ws sp (p @ []) [] = split_ws sp [] ([] @ p)"
    by (intro split_ws_append) simp
  with 2 show ?case by simp
next
  case (3 p q ps)
  have "split_ws sp (p @ ([32] @ py_join [32] (q # ps))) [] =
          split_ws sp ([32] @ py_join [32] (q # ps)) ([] @ p)"
    using 3 by (intro split_ws_append) simp
  moreover have "p \<noteq> []" using 3 by simp
  ultimately show ?case using 3 by simp
qed

lemma set_py_join: "set (py_join sep parts) \<subseteq> \<Union> (set ` set parts) \<union> set sep"
  by (induction sep parts rule: py_join.induct) auto

lemma py_join_Nil_iff: "\<forall>p\<in>set parts. p \<noteq> [] \<Longrightarrow> py_join sep parts = [] \<longleftrightarrow> parts = []"
  by (induction sep parts rule: py_join.induct) auto

lemma hd_py_join: "parts \<noteq> [] \<Longrightarrow> \<forall>p\<in>set parts. p \<noteq> [] \<Longrightarrow> hd (py_join sep parts) = hd (hd parts)"
  by (induction sep parts rule: py_join.induct) auto

lemma last_py_join:
  "parts \<noteq> [] \<Longrightarrow> \<forall>p\<in>set parts. p \<noteq> [] \<Longrightarrow> last (py_join sep parts) = last (last parts)"
proof (induction sep parts rule: py_join.induct)
  case (3 sep p q ps)
  have "py_join sep (q # ps) \<noteq> []" using 3 py_join_Nil_iff [of "q # ps" sep] by simp
  with 3 show ?case by simp
qed simp_all

lemma py_strip_id:
  assumes "s = [] \<or> (\<not> isspace U (hd s) \<and> \<not> isspace U (last s))"
  shows "py_strip U s = s"
proof -
  have 1: "dropWhile (isspace U) s = s"
    using assms by (auto simp: dropWhile_eq_self_iff)
  have 2: "dropWhile (isspace U) (rev s) = rev s"
    using assms by (auto simp: dropWhile_eq_self_iff hd_rev)
  show ?thesis by (simp add: py_strip_def 1 2)
qed

lemma py_strip_join:
  assumes "\<forall>p\<in>set parts. p \<noteq> [] \<and> (\<forall>c\<in>set p. \<not> isspace U c)"
  shows "py_strip U (py_join sep parts) = py_join sep parts"
proof (cases "parts = []")
  case True
  then show ?thesis by (simp add: py_strip_def)
next
  case False
  have ne: "\<forall>p\<in>set parts. p \<noteq> []" using assms by simp
  have "hd parts \<in> set parts" "last parts \<in> set parts" using False by simp_all
  then have "\<not> isspace U (hd (hd parts))" "\<not> isspace U (last (last parts))"
    using assms by (auto simp: hd_in_set last_in_set)
  then show ?thesis
    using hd_py_join [OF False ne, of sep] last_py_join [OF False ne, of sep]
    by (intro py_strip_id) simp
qed


subsection \<open>The replacement loop\<close>

lemma replace_all_map: "replace_all v = map fold_accent v"
proof -
  have "foldl (\<lambda>v (src, dst). replace1 src dst v) v tab
          = map (\<lambda>c. foldl (\<lambda>c (src, dst). if c = src then dst else c) c tab) v" for tab
    by (induction tab arbitrary: v) (auto simp: replace1_def)
  then show ?thesis unfolding replace_all_def fold_accent_def .
qed

lemma fold_tab_id:
  "c \<notin> fst ` set tab \<Longrightarrow> foldl (\<lambda>c (src, dst). if c = src then dst else c) c tab = c"
  by (induction tab) auto

lemma fold_tab_cases:
  "snd ` set tab \<inter> fst ` set tab = {} \<Longrightarrow>
     (foldl (\<lambda>c (src, dst). if c = src then dst else c) c tab = c \<and> c \<notin> fst ` set tab)
     \<or> foldl (\<lambda>c (src, dst). if c = src then dst else c) c tab \<in> snd ` set tab"
proof (induction tab arbitrary: c)
  case Nil
  then show ?case by simp
next
  case (Cons sd tab)
  obtain s d where sd: "sd = (s, d)" by (cases sd)
  have disj: "snd ` set tab \<inter> fst ` set tab = {}" using Cons.prems by auto
  show ?case
  proof (cases "c = s")
    case True
    have "d \<notin> fst ` set tab" using Cons.prems sd by auto
    then show ?thesis using True sd fold_tab_id [of d tab] by simp
  next
    case False
    with Cons.IH [OF disj, of c] sd show ?thesis by auto
  qed
qed

lemma REPLACEMENTS_disjoint: "snd ` set REPLACEMENTS \<inter> fst ` set REPLACEMENTS = {}"
proof -
  have "list_all (\<lambda>d. d \<notin> set (map fst REPLACEMENTS)) (map snd REPLACEMENTS)"
    by code_simp
  then show ?thesis by (auto simp: list_all_iff)
qed

lemma fold_accent_cases:
  "(fold_accent c = c \<and> c \<notin> fst ` set REPLACEMENTS) \<or> fold_accent c \<in> snd ` set REPLACEMENTS"
  unfolding fold_accent_def by (rule fold_tab_cases [OF REPLACEMENTS_disjoint])

lemma fold_accent_not_src: "fold_accent c \<notin> fst ` set REPLACEMENTS"
proof (cases "fold_accent c \<in> snd ` set REPLACEMENTS")
  case True
  show ?thesis
  proof
    assume "fold_accent c \<in> fst ` set REPLACEMENTS"
    with True have "fold_accent c \<in> snd ` set REPLACEMENTS \<inter> fst ` set REPLACEMENTS"
      by (rule IntI)
    then show False by (simp only: REPLACEMENTS_disjoint empty_iff)
  qed
next
  case False
  with fold_accent_cases [of c] show ?thesis by (simp del: set_map)
qed

lemma fold_accent_id: "c \<notin> fst ` set REPLACEMENTS \<Longrightarrow> fold_accent c = c"
  unfolding fold_accent_def by (rule fold_tab_id)

lemma space_not_src: "32 \<notin> fst ` set REPLACEMENTS"
proof -
  have "32 \<notin> set (map fst REPLACEMENTS)" by code_simp
  then show ?thesis by simp
qed

subsection \<open>Idempotence\<close>

lemma normalize_of_joined:
  assumes sp: "isspace U 32"
    and good: "\<forall>p\<in>set parts. p \<noteq> [] \<and> (\<forall>c\<in>set p. \<not> isspace U c) \<and> p \<notin> set STOP_WORDS"
    and low: "str_lower U (py_join [32] parts) = py_join [32] parts"
    and chars: "\<forall>p\<in>set parts. \<forall>c\<in>set p. isalnum U c \<and> c \<notin> fst ` set REPLACEMENTS"
  shows "normalize_team_name U (py_join [32] parts) = py_join [32] parts"
proof -
  let ?J = "py_join [32] parts"
  have good': "\<forall>p\<in>set parts. p \<noteq> [] \<and> (\<forall>c\<in>set p. \<not> isspace U c)"
    using good by simp
  have strip: "py_strip U ?J = ?J" by (rule py_strip_join [OF good'])
  have Jchars: "c \<in> set ?J \<Longrightarrow> c = 32 \<or> (\<exists>p\<in>set parts. c \<in> set p)" for c
    using set_py_join [of "[32]" parts] by auto
  have rep: "replace_all ?J = ?J"
  proof -
    have "fold_accent c = c" if "c \<in> set ?J" for c
    proof -
      from Jchars [OF that] chars space_not_src have "c \<notin> fst ` set REPLACEMENTS" by auto
      then show ?thesis by (rule fold_accent_id)
    qed
    then have "map fold_accent ?J = map (\<lambda>c. c) ?J" by (intro map_cong) simp_all
    then show ?thesis by (simp add: replace_all_map)
  qed
  have blank: "blank_other U ?J = ?J"
  proof -
    have "(if isalnum U c \<or> isspace U c then c else 32) = c" if "c \<in> set ?J" for c
      using Jchars [OF that] chars sp by auto
    then have "map (\<lambda>ch. if isalnum U ch \<or> isspace U ch then ch else 32) ?J = map (\<lambda>c. c) ?J"
      by (intro map_cong) simp_all
    then show ?thesis by (simp add: blank_other_def)
  qed
  have split: "py_split U ?J = parts"
    unfolding py_split_def by (rule split_ws_join [OF sp good'])
  have filt: "filter (\<lambda>part. part \<noteq> [] \<and> part \<notin> set STOP_WORDS) parts = parts"
    using good by (simp add: filter_id_conv)
  show ?thesis
    by (simp add: normalize_team_name_def Let_def strip low rep blank split filt)
qed


text \<open>
  Claim C6. For every database that satisfies the two laws of \<open>ucd_ok\<close>, and so for
  the interpreter's, applying \<open>normalize_team_name\<close> to its own output returns that
  output, for every string.
\<close>

theorem normalize_idempotent:
  assumes "ucd_ok U"
  shows "normalize_team_name U (normalize_team_name U x) = normalize_team_name U x"
proof -
  have sp: "isspace U 32" using assms by (simp add: ucd_ok_def)
  have stable: "str_lower U t = t"
    if "set t \<subseteq> set (str_lower U s) \<union> {32} \<union> snd ` set REPLACEMENTS" for s t
    using assms that unfolding ucd_ok_def by blast
  define v1 where "v1 = str_lower U (py_strip U x)"
  define v2 where "v2 = replace_all v1"
  define v3 where "v3 = blank_other U v2"
  define parts where
    "parts = filter (\<lambda>part. part \<noteq> [] \<and> part \<notin> set STOP_WORDS) (py_split U v3)"
  let ?J = "py_join [32] parts"
  have v2: "c \<in> set v2 \<Longrightarrow> (c \<in> set v1 \<or> c \<in> snd ` set REPLACEMENTS) \<and> c \<notin> fst ` set REPLACEMENTS"
    for c
  proof -
    assume "c \<in> set v2"
    then obtain d where d: "d \<in> set v1" "c = fold_accent d"
      by (auto simp: v2_def replace_all_map)
    have 1: "c \<notin> fst ` set REPLACEMENTS"
      unfolding d(2) by (rule fold_accent_not_src)
    from fold_accent_cases [of d] have 2: "c \<in> set v1 \<or> c \<in> snd ` set REPLACEMENTS"
    proof
      assume "fold_accent d = d \<and> d \<notin> fst ` set REPLACEMENTS"
      with d have "c \<in> set v1" by simp
      then show ?thesis ..
    next
      assume "fold_accent d \<in> snd ` set REPLACEMENTS"
      then have "c \<in> snd ` set REPLACEMENTS" unfolding d(2) .
      then show ?thesis ..
    qed
    from 2 1 show ?thesis by (rule conjI)
  qed
  have v3: "c \<in> set v3 \<Longrightarrow> (c \<in> set v2 \<and> isalnum U c) \<or> isspace U c" for c
    using sp by (auto simp: v3_def blank_other_def split: if_splits)
  have parts: "p \<noteq> [] \<and> (\<forall>c\<in>set p. \<not> isspace U c) \<and> set p \<subseteq> set v3 \<and> p \<notin> set STOP_WORDS"
    if "p \<in> set parts" for p
  proof -
    from that have "p \<in> set (split_ws (isspace U) v3 [])" "p \<notin> set STOP_WORDS"
      by (simp_all add: parts_def py_split_def)
    with split_ws_parts [of "[]" "isspace U" p v3] show ?thesis by simp
  qed
  have pchars: "(c \<in> set v1 \<or> c \<in> snd ` set REPLACEMENTS) \<and> c \<notin> fst ` set REPLACEMENTS
                  \<and> isalnum U c"
    if "p \<in> set parts" "c \<in> set p" for p c
  proof -
    from parts [OF that(1)] that(2) have "c \<in> set v3" "\<not> isspace U c" by auto
    with v3 [of c] have "c \<in> set v2" "isalnum U c" by auto
    with v2 [of c] show ?thesis by simp
  qed
  have N: "normalize_team_name U x = py_strip U ?J"
    by (simp add: normalize_team_name_def Let_def v1_def v2_def v3_def parts_def)
  have good: "\<forall>p\<in>set parts. p \<noteq> [] \<and> (\<forall>c\<in>set p. \<not> isspace U c) \<and> p \<notin> set STOP_WORDS"
    using parts by blast
  have strip: "py_strip U ?J = ?J"
    by (rule py_strip_join) (use parts in blast)
  have "set ?J \<subseteq> set (str_lower U (py_strip U x)) \<union> {32} \<union> snd ` set REPLACEMENTS"
  proof
    fix c assume "c \<in> set ?J"
    with set_py_join [of "[32]" parts] have "c = 32 \<or> (\<exists>p\<in>set parts. c \<in> set p)" by auto
    with pchars show "c \<in> set (str_lower U (py_strip U x)) \<union> {32} \<union> snd ` set REPLACEMENTS"
      unfolding v1_def by blast
  qed
  then have low: "str_lower U ?J = ?J" by (rule stable)
  have chars: "\<forall>p\<in>set parts. \<forall>c\<in>set p. isalnum U c \<and> c \<notin> fst ` set REPLACEMENTS"
    using pchars by blast
  have "normalize_team_name U ?J = ?J"
    by (rule normalize_of_joined [OF sp good low chars])
  then show ?thesis by (simp add: N strip)
qed


subsection \<open>The Latin-1 database\<close>

lemma lower1_idem: "lower1 (lower1 c) = lower1 c"
  by (simp add: lower1_def)

lemma lower1_base: "c \<in> {32} \<union> snd ` set REPLACEMENTS \<Longrightarrow> lower1 c = c"
  by (auto simp: lower1_def REPLACEMENTS_def)

lemma latin1_ok: "ucd_ok latin1"
proof -
  have "map lower1 t = t" if "set t \<subseteq> set (map lower1 s) \<union> {32} \<union> snd ` set REPLACEMENTS" for s t
  proof -
    have "lower1 c = c" if "c \<in> set t" for c
    proof -
      from that \<open>set t \<subseteq> _\<close> have "c \<in> lower1 ` set s \<or> c \<in> {32} \<union> snd ` set REPLACEMENTS"
        by auto
      then show ?thesis using lower1_idem lower1_base by auto
    qed
    then show ?thesis by (simp add: map_idI)
  qed
  then show ?thesis by (simp add: ucd_ok_def latin1_def isspace1_def del: set_map)
qed

theorem normalize_idempotent_witness:
  "ucd_ok latin1
   \<and> normalize_team_name latin1 (normalize_team_name latin1 ([32] @ py ''FC S'' @ [195] @ py ''o-Paulo ''))
       = normalize_team_name latin1 ([32] @ py ''FC S'' @ [195] @ py ''o-Paulo '')
   \<and> normalize_team_name latin1 ([32] @ py ''FC S'' @ [195] @ py ''o-Paulo '') = py ''sao paulo''"
proof -
  have v: "normalize_team_name latin1 ([32] @ py ''FC S'' @ [195] @ py ''o-Paulo '') = py ''sao paulo''"
    by code_simp
  from normalize_idempotent [OF latin1_ok, of "[32] @ py ''FC S'' @ [195] @ py ''o-Paulo ''"] latin1_ok v
  show ?thesis by simp
qed

subsection \<open>Case and accent invariance\<close>

lemma src_range: "c \<in> fst ` set REPLACEMENTS \<Longrightarrow> 224 \<le> c \<and> c \<le> 252"
proof -
  have "list_all (\<lambda>c. 224 \<le> c \<and> c \<le> 252) (map fst REPLACEMENTS)" by code_simp
  then show "c \<in> fst ` set REPLACEMENTS \<Longrightarrow> 224 \<le> c \<and> c \<le> 252"
    by (auto simp: list_all_iff)
qed

lemma dst_range: "c \<in> snd ` set REPLACEMENTS \<Longrightarrow> 97 \<le> c \<and> c \<le> 117"
proof -
  have "list_all (\<lambda>c. 97 \<le> c \<and> c \<le> 117) (map snd REPLACEMENTS)" by code_simp
  then show "c \<in> snd ` set REPLACEMENTS \<Longrightarrow> 97 \<le> c \<and> c \<le> 117"
    by (auto simp: list_all_iff)
qed

lemma fold_accent_range:
  "fold_accent d = d \<or> (224 \<le> d \<and> d \<le> 252 \<and> 97 \<le> fold_accent d \<and> fold_accent d \<le> 117)"
proof (cases "d \<in> fst ` set REPLACEMENTS")
  case False
  then show ?thesis by (simp add: fold_accent_id del: set_map)
next
  case True
  with fold_accent_cases [of d] have "fold_accent d \<in> snd ` set REPLACEMENTS" by blast
  with src_range [OF True] dst_range show ?thesis by blast
qed

lemma isspace1_lower1: "isspace1 (lower1 a) = isspace1 a"
  unfolding isspace1_def lower1_def by (cases "a < 65") auto

lemma isspace1_fold_accent: "isspace1 (fold_accent d) = isspace1 d"
proof (cases "fold_accent d = d")
  case True
  then show ?thesis by simp
next
  case False
  with fold_accent_range [of d]
  have "224 \<le> d" "97 \<le> fold_accent d" "fold_accent d \<le> 117" by simp_all
  then show ?thesis by (simp add: isspace1_def)
qed

lemma isspace1_fold_letter: "isspace1 (fold_letter a) = isspace1 a"
  by (simp add: fold_letter_def isspace1_fold_accent isspace1_lower1)

lemma same_letter_space: "fold_letter a = fold_letter b \<Longrightarrow> isspace1 a = isspace1 b"
  using isspace1_fold_letter [of a] isspace1_fold_letter [of b] by simp

lemma same_letter_dropWhile:
  "list_all2 (\<lambda>a b. fold_letter a = fold_letter b) x y \<Longrightarrow>
     list_all2 (\<lambda>a b. fold_letter a = fold_letter b) (dropWhile isspace1 x) (dropWhile isspace1 y)"
  by (induction rule: list_all2_induct) (auto dest: same_letter_space)

lemma same_letter_strip:
  assumes "list_all2 (\<lambda>a b. fold_letter a = fold_letter b) x y"
  shows "list_all2 (\<lambda>a b. fold_letter a = fold_letter b) (py_strip latin1 x) (py_strip latin1 y)"
proof -
  have sp: "isspace latin1 = isspace1" by (simp add: latin1_def)
  from assms have "list_all2 (\<lambda>a b. fold_letter a = fold_letter b)
      (dropWhile isspace1 x) (dropWhile isspace1 y)"
    by (rule same_letter_dropWhile)
  then have "list_all2 (\<lambda>a b. fold_letter a = fold_letter b)
      (rev (dropWhile isspace1 x)) (rev (dropWhile isspace1 y))"
    by simp
  then have "list_all2 (\<lambda>a b. fold_letter a = fold_letter b)
      (dropWhile isspace1 (rev (dropWhile isspace1 x))) (dropWhile isspace1 (rev (dropWhile isspace1 y)))"
    by (rule same_letter_dropWhile)
  then show ?thesis
    unfolding py_strip_def sp by simp
qed

lemma normalize_latin1_fold:
  "normalize_team_name latin1 x =
     (let v = blank_other latin1 (map fold_letter (py_strip latin1 x));
          parts = filter (\<lambda>part. part \<noteq> [] \<and> part \<notin> set STOP_WORDS) (py_split latin1 v)
      in py_strip latin1 (py_join [32] parts))"
proof -
  have "replace_all (str_lower latin1 s) = map fold_letter s" for s
    by (simp add: replace_all_map latin1_def fold_letter_def)
  then show ?thesis by (simp add: normalize_team_name_def Let_def)
qed


lemma normalize_fold:
  "normalize_team_name U x =
     (let v = blank_other U (map fold_accent (str_lower U (py_strip U x)));
          parts = filter (\<lambda>part. part \<noteq> [] \<and> part \<notin> set STOP_WORDS) (py_split U v)
      in py_strip U (py_join [32] parts))"
  by (simp add: normalize_team_name_def Let_def replace_all_map)

lemma latin1_invariance:
  assumes "map fold_letter x = map fold_letter y"
  shows "normalize_team_name latin1 x = normalize_team_name latin1 y"
proof -
  from assms have "list_all2 (\<lambda>a b. fold_letter a = fold_letter b) x y"
    by (simp add: list_all2_conv_all_nth list_eq_iff_nth_eq)
  from same_letter_strip [OF this]
  have "map fold_letter (py_strip latin1 x) = map fold_letter (py_strip latin1 y)"
    by (simp add: list_all2_conv_all_nth list_eq_iff_nth_eq)
  then show ?thesis by (simp only: normalize_latin1_fold)
qed

text \<open>
  Claim C7, for letter case as \<open>str.lower\<close> folds it and for the accents that
  \<open>REPLACEMENTS\<close> lists. For every Unicode database and all names: when the stripped and
  lowered forms of two names (\<open>raw.strip().lower()\<close>) are equal once each accented letter
  of the table is replaced by its base letter, the two names have the same normal form.
  And on the Latin-1 tables, two names of Latin-1 characters that are equal position by
  position once every character is lowered and folded through the table have the same
  normal form; \<open>Sao Paulo\<close> and the same name with \<open>a\<close> tilde (227) are such a pair.
\<close>

theorem case_accent_invariance:
  "(map fold_accent (str_lower U (py_strip U x)) = map fold_accent (str_lower U (py_strip U y))
      \<longrightarrow> normalize_team_name U x = normalize_team_name U y)
   \<and> (list_all (\<lambda>c. c < 256) x' \<and> list_all (\<lambda>c. c < 256) y'
        \<and> map fold_letter x' = map fold_letter y'
      \<longrightarrow> normalize_team_name latin1 x' = normalize_team_name latin1 y')"
proof (intro conjI impI)
  assume "map fold_accent (str_lower U (py_strip U x)) = map fold_accent (str_lower U (py_strip U y))"
  then show "normalize_team_name U x = normalize_team_name U y"
    by (simp only: normalize_fold)
next
  assume "list_all (\<lambda>c. c < 256) x' \<and> list_all (\<lambda>c. c < 256) y'
        \<and> map fold_letter x' = map fold_letter y'"
  then show "normalize_team_name latin1 x' = normalize_team_name latin1 y'"
    by (intro latin1_invariance) simp
qed

theorem case_accent_invariance_witness:
  "map fold_accent (str_lower latin1 (py_strip latin1 (py ''Sao Paulo'')))
     = map fold_accent (str_lower latin1 (py_strip latin1 (py ''S'' @ [227] @ py ''o Paulo'')))
   \<and> list_all (\<lambda>c. c < 256) (py ''SAO Paulo '')
   \<and> list_all (\<lambda>c. c < 256) (py ''S'' @ [227] @ py ''o paulo '')
   \<and> map fold_letter (py ''SAO Paulo '') = map fold_letter (py ''S'' @ [227] @ py ''o paulo '')
   \<and> normalize_team_name latin1 (py ''Sao Paulo'')
       = normalize_team_name latin1 (py ''S'' @ [227] @ py ''o Paulo'')
   \<and> normalize_team_name latin1 (py ''SAO Paulo '')
       = normalize_team_name latin1 (py ''S'' @ [227] @ py ''o paulo '')"
proof -
  have g: "map fold_accent (str_lower latin1 (py_strip latin1 (py ''Sao Paulo'')))
     = map fold_accent (str_lower latin1 (py_strip latin1 (py ''S'' @ [227] @ py ''o Paulo'')))"
    by code_simp
  have a: "list_all (\<lambda>c. c < 256) (py ''SAO Paulo '')"
    by code_simp
  have b: "list_all (\<lambda>c. c < 256) (py ''S'' @ [227] @ py ''o paulo '')"
    by code_simp
  have h: "map fold_letter (py ''SAO Paulo '') = map fold_letter (py ''S'' @ [227] @ py ''o paulo '')"
    by code_simp
  note t = case_accent_invariance [of latin1 "py ''Sao Paulo''" "py ''S'' @ [227] @ py ''o Paulo''"
      "py ''SAO Paulo ''" "py ''S'' @ [227] @ py ''o paulo ''"]
  from t g have 1: "normalize_team_name latin1 (py ''Sao Paulo'')
       = normalize_team_name latin1 (py ''S'' @ [227] @ py ''o Paulo'')"
    by blast
  from t a b h have 2: "normalize_team_name latin1 (py ''SAO Paulo '')
       = normalize_team_name latin1 (py ''S'' @ [227] @ py ''o paulo '')"
    by blast
  from g a b h 1 2 show ?thesis by (intro conjI)
qed

text \<open>
  Code point 229 is \<open>a\<close> with a ring above, a lower-case letter of Latin-1 that the
  table does not list: the name that starts with it does not normalize to the name that
  starts with \<open>a\<close>.
\<close>

theorem case_accent_invariance_counterexample:
  "normalize_team_name latin1 ([229] @ py ''lesund'') \<noteq> normalize_team_name latin1 (py ''alesund'')"
  by code_simp

section \<open>Properties of the pipeline\<close>

subsection \<open>Columns of a row\<close>

lemma cell_of_assign: "cell_of (assign c v r) c' = (if c' = c then Some v else cell_of r c')"
  by (simp add: cell_of_def assign_def update_conv')

lemma cell_of_assign_all:
  "c \<notin> fst ` set kvs \<Longrightarrow> cell_of (assign_all r kvs) c = cell_of r c"
proof -
  have "c \<notin> fst ` set kvs \<Longrightarrow>
          cell_of (foldl (\<lambda>r (col, v). assign col v r) r kvs) c = cell_of r c" for r
    by (induction kvs arbitrary: r) (auto simp: cell_of_assign)
  then show "c \<notin> fst ` set kvs \<Longrightarrow> cell_of (assign_all r kvs) c = cell_of r c"
    by (simp add: assign_all_def)
qed

lemma derived_names:
  "map fst (derived_columns f r overall venue) =
     [''totalGoals'', ''btts_yes'',
      ''ou_over_0_5'', ''ou_over_1_5'', ''ou_over_2_5'', ''ou_over_3_5'', ''ou_over_4_5'',
      ''ou_over_5_5'',
      ''total_range_1_2'', ''home_range_1_2'', ''away_range_1_2'',
      ''total_range_1_3'', ''home_range_1_3'', ''away_range_1_3'',
      ''total_range_1_4'', ''home_range_1_4'', ''away_range_1_4'',
      ''total_range_1_5'', ''home_range_1_5'', ''away_range_1_5'',
      ''total_range_1_6'', ''home_range_1_6'', ''away_range_1_6'',
      ''total_range_2_3'', ''home_range_2_3'', ''away_range_2_3'',
      ''total_range_2_4'', ''home_range_2_4'', ''away_range_2_4'',
      ''total_range_2_5'', ''home_range_2_5'', ''away_range_2_5'',
      ''total_range_2_6'', ''home_range_2_6'', ''away_range_2_6'',
      ''total_range_3_4'', ''home_range_3_4'', ''away_range_3_4'',
      ''total_range_3_5'', ''home_range_3_5'', ''away_range_3_5'',
      ''total_range_3_6'', ''home_range_3_6'', ''away_range_3_6'',
      ''total_range_4_5'', ''home_range_4_5'', ''away_range_4_5'',
      ''total_range_4_6'', ''home_range_4_6'', ''away_range_4_6'',
      ''total_range_5_6'', ''home_range_5_6'', ''away_range_5_6'',
      ''clean_sheet_home'', ''clean_sheet_away'', ''fh_goals_total'', ''sh_goals_total'',
      ''fh_result'', ''home_cards'', ''away_cards'', ''total_cards'', ''home_corners'',
      ''away_corners'', ''total_corners'',
      ''h2h_overall_matches'', ''h2h_overall_home_win_pct'', ''h2h_overall_away_win_pct'',
      ''h2h_overall_draw_pct'', ''h2h_overall_avg_goals'', ''h2h_overall_btts_pct'',
      ''h2h_overall_over_2_5_pct'',
      ''h2h_venue_matches'', ''h2h_venue_home_win_pct'', ''h2h_venue_away_win_pct'',
      ''h2h_venue_draw_pct'', ''h2h_venue_avg_goals'', ''h2h_venue_btts_pct'',
      ''h2h_venue_over_2_5_pct'']"
  by (simp add: derived_columns_def Let_def ou_columns_def range_columns_def total_ranges_def
      h2h_columns_def str_digit_def)


lemma result_not_derived: "''result'' \<notin> fst ` set (derived_columns f r overall venue)"
proof -
  have "''result'' \<notin> set (map fst (derived_columns f r overall venue))"
    unfolding derived_names by simp
  then show ?thesis by simp
qed

lemma raw_columns_not_derived:
  "c \<in> set [''HTHome'', ''HTAway'', ''HomeCorners'', ''AwayCorners'', ''HomeYellow'',
       ''AwayYellow'', ''HomeRed'', ''AwayRed''] \<Longrightarrow>
   c \<notin> fst ` set (derived_columns f r overall venue)"
proof -
  assume "c \<in> set [''HTHome'', ''HTAway'', ''HomeCorners'', ''AwayCorners'', ''HomeYellow'',
       ''AwayYellow'', ''HomeRed'', ''AwayRed'']"
  then have "c \<notin> set (map fst (derived_columns f r overall venue))"
    unfolding derived_names by auto
  then show ?thesis by simp
qed

lemma result_of_merged_row: "cell_of (merged_row f r) ''result'' = map_of (others f) ''result''"
  unfolding merged_row_def by (subst cell_of_assign_all) (simp_all add: cell_of_def)

lemma result_of_out_row: "cell_of (out_row pm f r) ''result'' = map_of (others f) ''result''"
  by (simp add: out_row_def Let_def cell_of_assign_all [OF result_not_derived] result_of_merged_row)

lemma unmatched_merged_row:
  "map (cell_of (merged_row f None))
      [''HTHome'', ''HTAway'', ''HomeCorners'', ''AwayCorners'', ''HomeYellow'', ''AwayYellow'',
       ''HomeRed'', ''AwayRed'']
     = replicate 8 (Some NaN)"
  by (simp add: merged_row_def assign_all_def cell_of_assign icell_def numeral_eq_Suc)

lemma unmatched_out_row:
  "map (cell_of (out_row pm f None))
      [''HTHome'', ''HTAway'', ''HomeCorners'', ''AwayCorners'', ''HomeYellow'', ''AwayYellow'',
       ''HomeRed'', ''AwayRed'']
     = replicate 8 (Some NaN)"
proof -
  have "cell_of (out_row pm f None) c = cell_of (merged_row f None) c"
    if "c \<in> set [''HTHome'', ''HTAway'', ''HomeCorners'', ''AwayCorners'', ''HomeYellow'',
       ''AwayYellow'', ''HomeRed'', ''AwayRed'']" for c
    using raw_columns_not_derived [OF that] by (simp add: out_row_def Let_def cell_of_assign_all)
  then have "map (cell_of (out_row pm f None))
      [''HTHome'', ''HTAway'', ''HomeCorners'', ''AwayCorners'', ''HomeYellow'', ''AwayYellow'',
       ''HomeRed'', ''AwayRed'']
     = map (cell_of (merged_row f None))
      [''HTHome'', ''HTAway'', ''HomeCorners'', ''AwayCorners'', ''HomeYellow'', ''AwayYellow'',
       ''HomeRed'', ''AwayRed'']"
    by (intro map_cong refl) blast
  then show ?thesis by (simp only: unmatched_merged_row)
qed


subsection \<open>The merge and the run\<close>

lemma filter_unique_key:
  "distinct (map g xs) \<Longrightarrow>
     filter (\<lambda>r. g r = k) xs = (case List.find (\<lambda>r. g r = k) xs of None \<Rightarrow> [] | Some r \<Rightarrow> [r])"
proof (induction xs)
  case Nil
  then show ?case by simp
next
  case (Cons x xs)
  show ?case
  proof (cases "g x = k")
    case True
    with Cons.prems have "k \<notin> g ` set xs" by simp
    then have "\<forall>r\<in>set xs. g r \<noteq> k" by blast
    then have "filter (\<lambda>r. g r = k) xs = []" by (simp add: filter_empty_conv)
    with True show ?thesis by simp
  next
    case False
    with Cons show ?thesis by simp
  qed
qed

lemma merge_unique:
  assumes "distinct (map right_key right)"
  shows "merge left right
           = Inr (map (\<lambda>f. (f, List.find (\<lambda>r. right_key r = left_key f) right)) left)"
proof -
  have "(case filter (\<lambda>r. right_key r = left_key f) right of
           [] \<Rightarrow> [(f, None)] | rs \<Rightarrow> map (\<lambda>r. (f, Some r)) rs)
        = [(f, List.find (\<lambda>r. right_key r = left_key f) right)]" for f
    by (simp add: filter_unique_key [OF assms] split: option.split)
  then have "concat (map (\<lambda>f.
             (case filter (\<lambda>r. right_key r = left_key f) right of
                [] \<Rightarrow> [(f, None)]
              | rs \<Rightarrow> map (\<lambda>r. (f, Some r)) rs)) left)
        = map (\<lambda>f. (f, List.find (\<lambda>r. right_key r = left_key f) right)) left"
    by (induction left) simp_all
  with assms show ?thesis by (simp add: merge_def)
qed

lemma main_duplicate:
  "\<not> distinct (map right_key (canonical_table U mappings raw)) \<Longrightarrow>
     main U features raw mappings out_path = Inl MergeError"
  by (simp add: main_def merge_def Let_def)

lemma main_unique:
  assumes "distinct (map right_key (canonical_table U mappings raw))"
    and "features \<noteq> []" and "\<not> name_clash features"
  shows "main U features raw mappings out_path =
     Inr (map (\<lambda>f. out_row (pair_map (canonical_table U mappings raw)) f
                 (List.find (\<lambda>r. right_key r = left_key f) (canonical_table U mappings raw)))
            features,
          coverage out_path
            (map (\<lambda>f. out_row (pair_map (canonical_table U mappings raw)) f
                 (List.find (\<lambda>r. right_key r = left_key f) (canonical_table U mappings raw)))
            features))"
  using assms(2,3) by (simp add: main_def Let_def merge_unique [OF assms(1)] comp_def)

lemma main_Inr_distinct:
  "main U features raw mappings out_path = Inr x \<Longrightarrow>
     distinct (map right_key (canonical_table U mappings raw))"
  using main_duplicate [of U mappings raw features out_path] by auto

lemma main_Inr_rows:
  assumes "main U features raw mappings out_path = Inr x"
  shows "features \<noteq> [] \<and> \<not> name_clash features"
proof -
  have d: "distinct (map right_key (canonical_table U mappings raw))"
    using assms by (rule main_Inr_distinct)
  from assms show ?thesis
    by (auto simp: main_def Let_def merge_unique [OF d] split: if_splits)
qed

lemma main_no_rows:
  "distinct (map right_key (canonical_table U mappings raw)) \<Longrightarrow>
     main U [] raw mappings out_path = Inl KeyError"
  by (simp add: main_def Let_def merge_def)

lemma canonical_table_resolved:
  "canonical_table U mappings (filter (\<lambda>r. resolve_league_id U (Division r) \<noteq> None) raw)
     = canonical_table U mappings raw"
  unfolding canonical_table_def
  by (induction raw) (auto simp: List.map_filter_simps canonical_def split: option.splits)

lemma pair_map_sorted: "sorted (map date (pair_map table key))"
  by (simp add: pair_map_def)

subsection \<open>The concrete tables\<close>

lemma canonical_one: "distinct (map right_key (canonical_table latin1 team_map [raw_match]))"
  by code_simp

lemma canonical_two: "\<not> distinct (map right_key (canonical_table latin1 team_map [raw_match, raw_match]))"
  by code_simp

lemma fixture_no_clash: "\<not> name_clash [fixture1] \<and> \<not> name_clash [fixture2]"
  by code_simp

lemma canonical_dropped:
  "canonical_table latin1 team_map [raw_unresolved, raw_match]
     = canonical_table latin1 team_map [raw_match]"
  by code_simp

subsection \<open>Merge cardinality\<close>

text \<open>
  Claim C3. When two rows of the outcome table (the raw table after the league filter)
  share their key (date, league, home team, away team), the run ends with \<open>MergeError\<close>
  and writes nothing. When the keys are distinct, the merge gives one row for each feature
  row, in order, joined to the one outcome row with its key or to none, and the run (of a
  feature table with at least one row and no column named as a raw column) writes the
  output rows of exactly these pairs; a row joined to none has the missing value in all
  eight outcome columns.
\<close>

theorem merge_cardinality:
  "(\<not> distinct (map right_key (canonical_table U mappings raw)) \<longrightarrow>
      main U features raw mappings out_path = Inl MergeError)
   \<and> (distinct (map right_key (canonical_table U mappings raw)) \<longrightarrow>
        merge features (canonical_table U mappings raw)
          = Inr (map (\<lambda>f. (f, List.find (\<lambda>r. right_key r = left_key f)
                                (canonical_table U mappings raw))) features)
        \<and> (features \<noteq> [] \<and> \<not> name_clash features \<longrightarrow>
             main U features raw mappings out_path
               = Inr (map (\<lambda>f. out_row (pair_map (canonical_table U mappings raw)) f
                       (List.find (\<lambda>r. right_key r = left_key f) (canonical_table U mappings raw)))
                   features,
                 coverage out_path
                   (map (\<lambda>f. out_row (pair_map (canonical_table U mappings raw)) f
                       (List.find (\<lambda>r. right_key r = left_key f) (canonical_table U mappings raw)))
                   features))))
   \<and> map (cell_of (out_row pm f None))
        [''HTHome'', ''HTAway'', ''HomeCorners'', ''AwayCorners'', ''HomeYellow'', ''AwayYellow'',
         ''HomeRed'', ''AwayRed'']
       = replicate 8 (Some NaN)"
  using main_duplicate [of U mappings raw features out_path]
    main_unique [of U mappings raw features out_path]
    merge_unique [of "canonical_table U mappings raw" features]
    unmatched_out_row [of pm f]
  by blast

theorem merge_cardinality_witness:
  "\<not> distinct (map right_key (canonical_table latin1 team_map [raw_match, raw_match]))
   \<and> main latin1 [fixture1] [raw_match, raw_match] team_map ''out.csv'' = Inl MergeError
   \<and> distinct (map right_key (canonical_table latin1 team_map [raw_match]))
   \<and> merge [fixture1] (canonical_table latin1 team_map [raw_match])
       = Inr (map (\<lambda>f. (f, List.find (\<lambda>r. right_key r = left_key f)
                                (canonical_table latin1 team_map [raw_match]))) [fixture1])
   \<and> [fixture1] \<noteq> [] \<and> \<not> name_clash [fixture1]
   \<and> main latin1 [fixture1] [raw_match] team_map ''out.csv''
       = Inr (map (\<lambda>f. out_row (pair_map (canonical_table latin1 team_map [raw_match])) f
                   (List.find (\<lambda>r. right_key r = left_key f)
                      (canonical_table latin1 team_map [raw_match])))
               [fixture1],
             coverage ''out.csv''
               (map (\<lambda>f. out_row (pair_map (canonical_table latin1 team_map [raw_match])) f
                   (List.find (\<lambda>r. right_key r = left_key f)
                      (canonical_table latin1 team_map [raw_match])))
               [fixture1]))"
proof -
  have n: "[fixture1] \<noteq> []" by simp
  have c: "\<not> name_clash [fixture1]" using fixture_no_clash by simp
  show ?thesis
    using merge_cardinality [of latin1 team_map "[raw_match, raw_match]" "[fixture1]" "''out.csv''"]
      merge_cardinality [of latin1 team_map "[raw_match]" "[fixture1]" "''out.csv''"]
      canonical_one canonical_two n c
    by blast
qed

subsection \<open>The column \<open>result\<close>\<close>

text \<open>
  Claim C4, as the code has it. The pipeline assigns no column \<open>result\<close>: in every row
  of the output, the cell of \<open>result\<close> is the cell that the feature row had under that
  name, and the column is absent when the feature table has none.
\<close>

theorem result_passthrough:
  assumes "main U features raw mappings out_path = Inr (rows, rep)"
  shows "map (\<lambda>r. cell_of r ''result'') rows = map (\<lambda>f. map_of (others f) ''result'') features"
proof -
  from assms have d: "distinct (map right_key (canonical_table U mappings raw))"
    by (rule main_Inr_distinct)
  from assms have n: "features \<noteq> []" and c: "\<not> name_clash features"
    using main_Inr_rows by blast+
  from main_unique [OF d n c, of out_path] assms
  have "rows = map (\<lambda>f. out_row (pair_map (canonical_table U mappings raw)) f
                 (List.find (\<lambda>r. right_key r = left_key f) (canonical_table U mappings raw)))
            features"
    by simp
  then show ?thesis by (simp add: comp_def result_of_out_row)
qed

theorem result_passthrough_witness:
  "main latin1 [fixture1] [raw_match] team_map ''out.csv''
     = Inr (map (\<lambda>f. out_row (pair_map (canonical_table latin1 team_map [raw_match])) f
                 (List.find (\<lambda>r. right_key r = left_key f) (canonical_table latin1 team_map [raw_match])))
            [fixture1],
          coverage ''out.csv''
            (map (\<lambda>f. out_row (pair_map (canonical_table latin1 team_map [raw_match])) f
                 (List.find (\<lambda>r. right_key r = left_key f) (canonical_table latin1 team_map [raw_match])))
            [fixture1]))
   \<and> map (\<lambda>r. cell_of r ''result'')
        (map (\<lambda>f. out_row (pair_map (canonical_table latin1 team_map [raw_match])) f
                 (List.find (\<lambda>r. right_key r = left_key f) (canonical_table latin1 team_map [raw_match])))
            [fixture1])
       = map (\<lambda>f. map_of (others f) ''result'') [fixture1]"
proof -
  have n: "[fixture1] \<noteq> []" by simp
  have c: "\<not> name_clash [fixture1]" using fixture_no_clash by simp
  note m = main_unique [OF canonical_one n c, of "''out.csv''"]
  from m result_passthrough [OF m] show ?thesis by (rule conjI)
qed

text \<open>
  A fixture won 2-1 at home has no \<open>result\<close> in the output when the feature table has
  no such column, and keeps \<open>AWAY\<close> when the feature table says so.
\<close>

theorem result_counterexample:
  "homeGoals fixture1 = Some 2 \<and> awayGoals fixture1 = Some 1
   \<and> output_column ''result'' (main latin1 [fixture1] [raw_match] team_map ''out.csv'') = [None]
   \<and> homeGoals fixture2 = Some 2 \<and> awayGoals fixture2 = Some 1
   \<and> output_column ''result'' (main latin1 [fixture2] [raw_match] team_map ''out.csv'')
       = [Some (Str (py ''AWAY''))]"
proof -
  have c1: "\<not> name_clash [fixture1]" and c2: "\<not> name_clash [fixture2]"
    using fixture_no_clash by simp_all
  have n1: "[fixture1] \<noteq> []" and n2: "[fixture2] \<noteq> []" by simp_all
  have o1: "map_of (others fixture1) ''result'' = None"
    by (simp add: fixture1_def)
  have o2: "map_of (others fixture2) ''result'' = Some (Str (py ''AWAY''))"
    by (simp add: fixture2_def)
  have r1: "output_column ''result'' (main latin1 [fixture1] [raw_match] team_map ''out.csv'')
       = [None]"
    by (simp add: main_unique [OF canonical_one n1 c1] output_column_def result_of_out_row o1)
  have r2: "output_column ''result'' (main latin1 [fixture2] [raw_match] team_map ''out.csv'')
       = [Some (Str (py ''AWAY''))]"
    by (simp add: main_unique [OF canonical_one n2 c2] output_column_def result_of_out_row o2)
  have g: "homeGoals fixture1 = Some 2 \<and> awayGoals fixture1 = Some 1
      \<and> homeGoals fixture2 = Some 2 \<and> awayGoals fixture2 = Some 1"
    by (simp add: fixture1_def fixture2_def)
  from g r1 r2 show ?thesis by simp
qed

subsection \<open>Rows with an unresolved league\<close>

text \<open>
  Claim C5, as the code has it. The rows whose league label is not resolved are dropped
  before the pair index is built and before the merge: the rows written and the report
  (the path and the three coverage counts) are those of the run on the raw table without
  them, so the report says nothing of how many were dropped.
\<close>

theorem unresolved_dropped:
  "main U features raw mappings out_path
     = main U features (filter (\<lambda>r. resolve_league_id U (Division r) \<noteq> None) raw) mappings out_path"
  by (simp only: main_def canonical_table_resolved)

text \<open>Two runs that drop one row and no row print the same report.\<close>

theorem report_counterexample:
  "main latin1 [fixture1] [raw_unresolved, raw_match] team_map ''out.csv''
     = main latin1 [fixture1] [raw_match] team_map ''out.csv''
   \<and> excluded_rows latin1 [raw_unresolved, raw_match] = 1
   \<and> excluded_rows latin1 [raw_match] = 0"
proof -
  have "main latin1 [fixture1] [raw_unresolved, raw_match] team_map ''out.csv''
     = main latin1 [fixture1] [raw_match] team_map ''out.csv''"
    by (simp add: main_def canonical_dropped)
  moreover have "excluded_rows latin1 [raw_unresolved, raw_match] = 1" by code_simp
  moreover have "excluded_rows latin1 [raw_match] = 0" by code_simp
  ultimately show ?thesis by (intro conjI)
qed


end
